theory Spec2Isabelle
  imports Main
begin

section \<open>Strings\<close>

text \<open>
  Python's \<^verbatim>\<open>str\<close> is modelled by \<^typ>\<open>string\<close>. The source only inspects ASCII
  characters (extensions, the prefix \<^verbatim>\<open>http\<close>, separators), so a character outside
  ASCII is just a character that matches none of them; \<^verbatim>\<open>str.lower\<close> is modelled on
  the letters A to Z, which are the only ones whose lower case is an ASCII letter
  followed by nothing else.
\<close>

definition lower_char :: "char \<Rightarrow> char" where
  "lower_char c =
     (case map_of (zip ''ABCDEFGHIJKLMNOPQRSTUVWXYZ'' ''abcdefghijklmnopqrstuvwxyz'') c of
        Some d \<Rightarrow> d
      | None \<Rightarrow> c)"

definition lower :: "string \<Rightarrow> string" where
  "lower s = map lower_char s"

definition startswith :: "string \<Rightarrow> string \<Rightarrow> bool" where
  "startswith s p = (take (length p) s = p)"

definition endswith :: "string \<Rightarrow> string \<Rightarrow> bool" where
  "endswith s x = (length x \<le> length s \<and> drop (length s - length x) s = x)"

text \<open>\<^verbatim>\<open>x in s\<close> for strings: \<open>x\<close> occurs in \<open>s\<close> as a contiguous piece.\<close>

fun contains :: "string \<Rightarrow> string \<Rightarrow> bool" where
  "contains [] x = (x = [])"
| "contains (c # cs) x = (startswith (c # cs) x \<or> contains cs x)"

definition is_space :: "char \<Rightarrow> bool" where
  "is_space c = (c \<in> set [CHR '' '', CHR 0x09, CHR 0x0A, CHR 0x0B, CHR 0x0C, CHR 0x0D])"

definition strip :: "string \<Rightarrow> string" where
  "strip s = rev (dropWhile is_space (rev (dropWhile is_space s)))"

section \<open>Recognising attachments (lines 74, 121 to 125)\<close>

definition ATTACH_EXTS :: "string list" where
  "ATTACH_EXTS = [''.pdf'', ''.doc'', ''.docx'', ''.xls'', ''.xlsx'', ''.zip'', ''.rar'', ''.txt'']"

text \<open>
  \<^verbatim>\<open>
  def looks_like_attachment(s: Optional[str]) -> bool:
      if not s:
          return False
      s = s.lower()
      return any(s.endswith(ext) or (ext in s and s.endswith(tuple(ATTACH_EXTS)))
                 for ext in ATTACH_EXTS)
  \<close>
  The argument is optional: \<open>None\<close> and the empty string are both falsy.
\<close>

definition looks_like_attachment :: "string option \<Rightarrow> bool" where
  "looks_like_attachment so =
     (case so of
        None \<Rightarrow> False
      | Some s0 \<Rightarrow>
          if s0 = [] then False
          else
            (let s = lower s0
             in list_ex (\<lambda>ext. endswith s ext \<or> (contains s ext \<and> list_ex (endswith s) ATTACH_EXTS))
                  ATTACH_EXTS))"

subsection \<open>The glossary's notion, for comparison\<close>

text \<open>
  The glossary calls a URL attachment-shaped when its \<^emph>\<open>path\<close> ends in a recognised
  extension. The path of a URL is what is left once the fragment (from the first
  \<^verbatim>\<open>#\<close>), the query (from the first \<^verbatim>\<open>?\<close>), the scheme (up to the first \<^verbatim>\<open>:\<close>, when
  only scheme characters precede it) and the authority (after \<^verbatim>\<open>//\<close>, up to the next
  \<^verbatim>\<open>/\<close>) are removed, as \<^verbatim>\<open>urllib.parse.urlparse(u).path\<close> computes it.
\<close>

definition is_scheme_char :: "char \<Rightarrow> bool" where
  "is_scheme_char c =
     (c \<in> set ''abcdefghijklmnopqrstuvwxyzABCDEFGHIJKLMNOPQRSTUVWXYZ0123456789+-.'')"

definition drop_scheme :: "string \<Rightarrow> string" where
  "drop_scheme u =
     (let pre = takeWhile (\<lambda>c. c \<noteq> CHR '':'') u
      in if pre \<noteq> [] \<and> length pre < length u \<and> list_all is_scheme_char pre
         then drop (length pre + 1) u
         else u)"

definition drop_authority :: "string \<Rightarrow> string" where
  "drop_authority u =
     (if startswith u ''//'' then dropWhile (\<lambda>c. c \<noteq> CHR ''/'') (drop 2 u) else u)"

definition spec_url_path :: "string \<Rightarrow> string" where
  "spec_url_path u =
     drop_authority (drop_scheme
       (takeWhile (\<lambda>c. c \<noteq> CHR ''?'') (takeWhile (\<lambda>c. c \<noteq> CHR ''#'') u)))"

definition spec_attachment_shaped :: "string \<Rightarrow> bool" where
  "spec_attachment_shaped u = list_ex (endswith (lower (spec_url_path u))) ATTACH_EXTS"

section \<open>Paths\<close>

text \<open>
  A \<^verbatim>\<open>pathlib.Path\<close> is modelled by the string it renders to. \<open>pjoin\<close> is the
  operator \<^verbatim>\<open>/\<close> (an absolute right operand replaces the left one), \<open>pname\<close>,
  \<open>pparent\<close>, \<open>psuffix\<close> and \<open>pstem\<close> are the attributes \<^verbatim>\<open>name\<close>, \<^verbatim>\<open>parent\<close>,
  \<^verbatim>\<open>suffix\<close> and \<^verbatim>\<open>stem\<close>. The suffix starts at the last dot of the name, unless
  that dot is the first or the last character of the name.
\<close>

definition pjoin :: "string \<Rightarrow> string \<Rightarrow> string" where
  "pjoin d n = (if startswith n ''/'' then n else d @ ''/'' @ n)"

definition pname :: "string \<Rightarrow> string" where
  "pname p = rev (takeWhile (\<lambda>c. c \<noteq> CHR ''/'') (rev p))"

definition pparent :: "string \<Rightarrow> string" where
  "pparent p = rev (drop 1 (dropWhile (\<lambda>c. c \<noteq> CHR ''/'') (rev p)))"

definition psuffix :: "string \<Rightarrow> string" where
  "psuffix p =
     (let n = pname p; ext = takeWhile (\<lambda>c. c \<noteq> CHR ''.'') (rev n)
      in if CHR ''.'' \<in> set n \<and> ext \<noteq> [] \<and> length ext + 1 < length n
         then CHR ''.'' # rev ext
         else [])"

definition pstem :: "string \<Rightarrow> string" where
  "pstem p = take (length (pname p) - length (psuffix p)) (pname p)"

section \<open>Exceptions, events and the environment\<close>

text \<open>
  Every \<^verbatim>\<open>except\<close> clause of the source catches \<^verbatim>\<open>Exception\<close>; one of them (line 451)
  singles out selenium's \<^verbatim>\<open>UnexpectedAlertPresentException\<close>. An exception carries the
  text \<^verbatim>\<open>str(e)\<close> that the handlers format into their messages.
\<close>

datatype exn = UnexpectedAlertPresentException string | Exception string

fun str_of_exn :: "exn \<Rightarrow> string" where
  "str_of_exn (UnexpectedAlertPresentException s) = s"
| "str_of_exn (Exception s) = s"

type_synonym elem = nat

text \<open>Records written to the process logger (\<^verbatim>\<open>logger.info\<close>, \<^verbatim>\<open>warning\<close>, \<^verbatim>\<open>error\<close>).\<close>

datatype logrec =
    LogTryDownload string string
  | LogDownloadDone string
  | LogDownloadFailed string string
  | LogTaskCrashed string string

text \<open>
  Every call that leaves the program is an event: the file system, HTTP, the logger, the
  browser driver and \<^verbatim>\<open>time.sleep\<close>. The events of a run, in the order they happen,
  are its history.
\<close>

datatype (plugins only: code size) event =
    EvExists string
  | EvRmtree string
  | EvMkdir string
  | EvCopy string string
  | EvZipExtract string string
  | EvRarExtract string string
  | EvWalk string
  | EvOpenRead string
  | EvPost string string
  | EvHttpGet string
  | EvWriteBody string
  | EvLogInfo logrec
  | EvLogWarning logrec
  | EvLogError logrec
  | EvBuildDriver string
  | EvGet string
  | EvQuit
  | EvGetCookies
  | EvFindElements string
  | EvFindElementById string
  | EvGetAttribute elem string
  | EvText elem
  | EvExecuteScript string elem
  | EvSwitchDefault
  | EvSwitchFrame elem
  | EvSwitchWindow string
  | EvSwitchAlert
  | EvAlertText
  | EvAlertDismiss
  | EvWindowHandles
  | EvCurrentUrl
  | EvCloseWindow
  | EvPageSource
  | EvTitle
  | EvPerfLogs
  | EvSleep nat

text \<open>
  The environment answers each call from the history so far and the call itself, so an
  answer may depend on everything that happened before; an answer is a value or an
  exception. There is one oracle per result type. The remaining fields are the pure
  library-built helpers whose values no property below depends on:
  \<^verbatim>\<open>short_title\<close> (lines 106 to 114), \<^verbatim>\<open>derive_filename_from_url\<close> (lines 116 to 119,
  \<^verbatim>\<open>urlparse\<close> may raise), \<^verbatim>\<open>urljoin\<close>, the three regular expressions of lines 443,
  527 and 584, whether \<^verbatim>\<open>patoolib\<close> was importable (line 45), the exception
  \<^verbatim>\<open>raise_for_status\<close> builds for an error status, the element a Python \<^verbatim>\<open>set\<close>
  yields first, and the time a call takes in milliseconds.
\<close>

record env =
  ans_unit :: "event list \<Rightarrow> event \<Rightarrow> exn + unit"
  ans_bool :: "event list \<Rightarrow> event \<Rightarrow> exn + bool"
  ans_nat :: "event list \<Rightarrow> event \<Rightarrow> exn + nat"
  ans_str :: "event list \<Rightarrow> event \<Rightarrow> exn + string"
  ans_ostr :: "event list \<Rightarrow> event \<Rightarrow> exn + string option"
  ans_strs :: "event list \<Rightarrow> event \<Rightarrow> exn + string list"
  ans_elems :: "event list \<Rightarrow> event \<Rightarrow> exn + elem list"
  ans_elem :: "event list \<Rightarrow> event \<Rightarrow> exn + elem"
  ans_walk :: "event list \<Rightarrow> event \<Rightarrow> exn + (string \<times> string list) list"
  latency :: "event list \<Rightarrow> event \<Rightarrow> nat"
  short_title :: "string \<Rightarrow> string"
  derive_filename_from_url :: "string \<Rightarrow> exn + string"
  urljoin :: "string \<Rightarrow> string \<Rightarrow> exn + string"
  re_validate_code :: "string \<Rightarrow> string option"
  re_href_search :: "string \<Rightarrow> string option"
  re_href_findall :: "string \<Rightarrow> string list"
  patoolib_present :: bool
  http_error :: "nat \<Rightarrow> exn"
  set_first :: "string list \<Rightarrow> string"

section \<open>Messages\<close>

text \<open>
  The narrative log \<^verbatim>\<open>messages\<close> is a list of formatted strings in the source. Each
  format string is a constructor here, applied to the values the source formats into it.
\<close>

datatype (plugins only: code size) msg =
    MsgTaskReceived string
  | MsgWorkDir string
  | MsgBrowserStarted
  | MsgTitle15 string
  | MsgStartA
  | MsgCountA nat
  | MsgFallbackB
  | MsgCountB nat
  | MsgSkipB
  | MsgNoAttachment string
  | MsgFileMissing string
  | MsgTaskEnd string nat
  | MsgTaskFailed string
  | MsgA_Begin
  | MsgA_Triggers nat
  | MsgA_TriggerFailed string
  | MsgA_NoTriggers
  | MsgA_Iframes nat
  | MsgA_Enter nat string
  | MsgA_Candidates nat nat
  | MsgA_Candidate nat string
  | MsgA_Alert string
  | MsgA_ClickFailed string
  | MsgA_NewWindow string
  | MsgA_WindowError string
  | MsgA_PerfFound string
  | MsgA_Container string string
  | MsgA_CandidateError string
  | MsgA_IframeError nat string
  | MsgA_Error string
  | MsgA_Total nat
  | MsgB_Begin
  | MsgB_Candidates nat
  | MsgB_DownloadFailed string string
  | MsgB_Error string
  | MsgB_Total nat
  | MsgZipOk string
  | MsgZipFailed string
  | MsgRarOk string
  | MsgRarFailed string
  | MsgNoPatool
  | MsgUploadInner string bool string
  | MsgUpload string bool string
  | MsgUploadFailed string string

section \<open>Programs\<close>

text \<open>
  The state a function threads: the history of events, the narrative log
  \<^verbatim>\<open>messages\<close>, the clock (milliseconds; \<^verbatim>\<open>time.time()\<close> reads it,
  \<^verbatim>\<open>time.sleep\<close> and calls advance it), and the lists the source appends to in place,
  which keep what was appended when an exception cuts a loop short: \<^verbatim>\<open>downloaded\<close> (of
  the strategy that is running), \<^verbatim>\<open>uploaded\<close> and \<^verbatim>\<open>cand\<close> (of strategy B). The last
  field is not the program's: it records, for the statements below, the calls that
  were answered with an exception.
  A program maps a state to a value or an exception, and the new state.
\<close>

record state =
  hist :: "event list"
  msgs :: "msg list"
  clock :: nat
  downloaded :: "string list"
  uploaded :: "string list"
  cand :: "string list"
  failed :: "event list"

type_synonym 'a prog = "state \<Rightarrow> (exn + 'a) \<times> state"

definition py_return :: "'a \<Rightarrow> 'a prog" where
  "py_return x st = (Inr x, st)"

definition py_raise :: "exn \<Rightarrow> 'a prog" where
  "py_raise e st = (Inl e, st)"

definition py_lift :: "exn + 'a \<Rightarrow> 'a prog" where
  "py_lift r st = (r, st)"

definition py_bind :: "'a prog \<Rightarrow> ('a \<Rightarrow> 'b prog) \<Rightarrow> 'b prog" where
  "py_bind m f st = (case m st of (Inl e, st1) \<Rightarrow> (Inl e, st1) | (Inr x, st1) \<Rightarrow> f x st1)"

text \<open>\<^verbatim>\<open>try: m except Exception as e: h(e)\<close>\<close>

definition py_try :: "'a prog \<Rightarrow> (exn \<Rightarrow> 'a prog) \<Rightarrow> 'a prog" where
  "py_try m h st = (case m st of (Inl e, st1) \<Rightarrow> h e st1 | (Inr x, st1) \<Rightarrow> (Inr x, st1))"

text \<open>\<^verbatim>\<open>try: m except Exception: pass\<close>\<close>

definition py_ignore :: "'a prog \<Rightarrow> unit prog" where
  "py_ignore m = py_try (py_bind m (\<lambda>_. py_return ())) (\<lambda>_. py_return ())"

definition call :: "env \<Rightarrow> (event list \<Rightarrow> event \<Rightarrow> exn + 'a) \<Rightarrow> event \<Rightarrow> 'a prog" where
  "call env oracle ev st =
     (oracle (hist st) ev,
      st\<lparr>hist := hist st @ [ev], clock := clock st + latency env (hist st) ev,
         failed := (case oracle (hist st) ev of Inl e \<Rightarrow> failed st @ [ev] | Inr x \<Rightarrow> failed st)\<rparr>)"

text \<open>A call that cannot fail: the logger swallows its handlers' errors, \<^verbatim>\<open>sleep\<close> returns.\<close>

definition emit :: "env \<Rightarrow> event \<Rightarrow> unit prog" where
  "emit env ev = call env (\<lambda>_ _. Inr ()) ev"

definition sleep :: "env \<Rightarrow> nat \<Rightarrow> unit prog" where
  "sleep env ms st = (Inr (), st\<lparr>hist := hist st @ [EvSleep ms], clock := clock st + ms\<rparr>)"

text \<open>\<^verbatim>\<open>messages.append(m)\<close>\<close>

definition say :: "msg \<Rightarrow> unit prog" where
  "say m st = (Inr (), st\<lparr>msgs := msgs st @ [m]\<rparr>)"

definition ensure_dir :: "env \<Rightarrow> string \<Rightarrow> unit prog" where
  "ensure_dir env p = call env (ans_unit env) (EvMkdir p)"

section \<open>Upload (lines 372 to 381)\<close>

definition BISHENG_API_BASE_URL :: string where
  "BISHENG_API_BASE_URL = ''http://192.168.168.19:3001''"

definition KNOWLEDGE_BASE_ID :: nat where
  "KNOWLEDGE_BASE_ID = 254"

definition rstrip_slash :: "string \<Rightarrow> string" where
  "rstrip_slash s = rev (dropWhile (\<lambda>c. c = CHR ''/'') (rev s))"

fun str_of_nat :: "nat \<Rightarrow> string" where
  "str_of_nat n =
     (if n < 10 then [''0123456789'' ! n]
      else str_of_nat (n div 10) @ [''0123456789'' ! (n mod 10)])"

text \<open>\<^verbatim>\<open>Response.raise_for_status\<close> raises for the statuses 400 to 599.\<close>

definition raise_for_status :: "env \<Rightarrow> nat \<Rightarrow> unit prog" where
  "raise_for_status env status =
     (if 400 \<le> status \<and> status < 600 then py_raise (http_error env status) else py_return ())"

text \<open>
  \<^verbatim>\<open>
  def upload_file_to_bisheng(file_path: Path) -> Tuple[bool, str]:
      try:
          endpoint = f"{BISHENG_API_BASE_URL.rstrip('/')}/api/v2/filelib/file/{KNOWLEDGE_BASE_ID}"
          with open(file_path, 'rb') as fh:
              files = {'file': (file_path.name, fh, 'application/octet-stream')}
              r = requests.post(endpoint, files=files, timeout=120, verify=REQUESTS_VERIFY)
              r.raise_for_status()
              return True, f"HTTP{r.status_code}"
      except Exception as e:
          return False, f"UploadFailed: {e}"
  \<close>
\<close>

definition upload_endpoint :: string where
  "upload_endpoint =
     rstrip_slash BISHENG_API_BASE_URL @ ''/api/v2/filelib/file/'' @ str_of_nat KNOWLEDGE_BASE_ID"

definition upload_try :: "env \<Rightarrow> string \<Rightarrow> (bool \<times> string) prog" where
  "upload_try env file_path =
     py_bind (call env (ans_unit env) (EvOpenRead file_path)) (\<lambda>_.
     py_bind (call env (ans_nat env) (EvPost upload_endpoint (pname file_path))) (\<lambda>status.
     py_bind (raise_for_status env status) (\<lambda>_.
     py_return (True, ''HTTP'' @ str_of_nat status))))"

definition upload_file_to_bisheng :: "env \<Rightarrow> string \<Rightarrow> (bool \<times> string) prog" where
  "upload_file_to_bisheng env file_path =
     py_try (upload_try env file_path)
       (\<lambda>e. py_return (False, ''UploadFailed: '' @ str_of_exn e))"

section \<open>Download (lines 292 to 308)\<close>

text \<open>
  \<^verbatim>\<open>
  def download_with_session(session, url, out_dir, filename_override=None) -> Optional[Path]:
      try:
          ensure_dir(out_dir)
          parsed_name = filename_override or derive_filename_from_url(url)
          out_path = out_dir / parsed_name
          logger.info(f"... {url} -> {out_path.name}")
          with session.get(url, stream=True, timeout=60, allow_redirects=True) as r:
              r.raise_for_status()
              with open(out_path, 'wb') as f:
                  for chunk in r.iter_content(chunk_size=8192):
                      if chunk:
                          f.write(chunk)
          logger.info(f"... {out_path}")
          return out_path
      except Exception as e:
          logger.warning(f"... {url} -> {e}")
          return None
  \<close>
  The session is the environment's. Opening the output file and streaming the body into
  it are one event, \<open>EvWriteBody\<close>, which fails when any read or write of it fails.
\<close>

definition download_try :: "env \<Rightarrow> string \<Rightarrow> string \<Rightarrow> string option \<Rightarrow> string prog" where
  "download_try env url out_dir filename_override =
     py_bind (ensure_dir env out_dir) (\<lambda>_.
     py_bind (case filename_override of
                Some n \<Rightarrow> if n \<noteq> [] then py_return n
                          else py_lift (derive_filename_from_url env url)
              | None \<Rightarrow> py_lift (derive_filename_from_url env url)) (\<lambda>parsed_name.
     py_bind (emit env (EvLogInfo (LogTryDownload url (pname (pjoin out_dir parsed_name))))) (\<lambda>_.
     py_bind (call env (ans_nat env) (EvHttpGet url)) (\<lambda>status.
     py_bind (raise_for_status env status) (\<lambda>_.
     py_bind (call env (ans_unit env) (EvWriteBody (pjoin out_dir parsed_name))) (\<lambda>_.
     py_bind (emit env (EvLogInfo (LogDownloadDone (pjoin out_dir parsed_name)))) (\<lambda>_.
     py_return (pjoin out_dir parsed_name))))))))"

definition download_with_session ::
    "env \<Rightarrow> string \<Rightarrow> string \<Rightarrow> string option \<Rightarrow> string option prog" where
  "download_with_session env url out_dir filename_override =
     py_try (py_bind (download_try env url out_dir filename_override) (\<lambda>p. py_return (Some p)))
       (\<lambda>e. py_bind (emit env (EvLogWarning (LogDownloadFailed url (str_of_exn e)))) (\<lambda>_.
            py_return None))"

section \<open>Archives and upload names (lines 313 to 367)\<close>

text \<open>The two characters between the title and the file name, in UTF-8.\<close>

definition attachment_word :: string where
  "attachment_word = [CHR 0xE9, CHR 0x99, CHR 0x84, CHR 0xE4, CHR 0xBB, CHR 0xB6]"

text \<open>\<^verbatim>\<open>f"{task_id}{page_title_15}<attachment>{path.name}_{fi}"\<close> and the plain form.\<close>

definition inner_stdname :: "string \<Rightarrow> string \<Rightarrow> string \<Rightarrow> string \<Rightarrow> string" where
  "inner_stdname task_id page_title_15 path fi =
     task_id @ page_title_15 @ attachment_word @ pname path @ ''_'' @ fi"

definition plain_stdname :: "string \<Rightarrow> string \<Rightarrow> string \<Rightarrow> string" where
  "plain_stdname task_id page_title_15 path =
     task_id @ page_title_15 @ attachment_word @ pname path"

definition extract_dir_of :: "string \<Rightarrow> string" where
  "extract_dir_of path = pjoin (pparent path) (''_extracted_'' @ pstem path)"

text \<open>\<^verbatim>\<open>for root, _, files in os.walk(...): for fi in files:\<close> visits these pairs.\<close>

definition walked_files :: "(string \<times> string list) list \<Rightarrow> (string \<times> string) list" where
  "walked_files walked = concat (map (\<lambda>(root, files). map (\<lambda>fi. (root, fi)) files) walked)"

definition append_uploaded :: "string \<Rightarrow> unit prog" where
  "append_uploaded n st = (Inr (), st\<lparr>uploaded := uploaded st @ [n]\<rparr>)"

text \<open>
  The body of the inner loop (lines 324 to 331, and 345 to 352 for rar):
  \<^verbatim>\<open>
  src = Path(root) / fi
  stdname = f"{task_id}{page_title_15}...{path.name}_{fi}"
  dest = path.parent / stdname
  shutil.copy2(src, dest)
  ok, info = upload_file_to_bisheng(dest)
  messages.append(f"... '{dest.name}' => {ok} ({info})")
  if ok:
      uploaded.append(dest.name)
  \<close>
\<close>

fun upload_inner_files ::
    "env \<Rightarrow> string \<Rightarrow> string \<Rightarrow> string \<Rightarrow> (string \<times> string) list \<Rightarrow> unit prog" where
  "upload_inner_files env path task_id page_title_15 [] = py_return ()"
| "upload_inner_files env path task_id page_title_15 ((root, fi) # rest) =
     py_bind (call env (ans_unit env)
                (EvCopy (pjoin root fi)
                   (pjoin (pparent path) (inner_stdname task_id page_title_15 path fi)))) (\<lambda>_.
     py_bind (upload_file_to_bisheng env
                (pjoin (pparent path) (inner_stdname task_id page_title_15 path fi))) (\<lambda>r.
     py_bind (say (MsgUploadInner
                (pname (pjoin (pparent path) (inner_stdname task_id page_title_15 path fi)))
                (fst r) (snd r))) (\<lambda>_.
     py_bind (if fst r
              then append_uploaded
                     (pname (pjoin (pparent path) (inner_stdname task_id page_title_15 path fi)))
              else py_return ()) (\<lambda>_.
     upload_inner_files env path task_id page_title_15 rest))))"

text \<open>The \<^verbatim>\<open>try\<close> block of the zip branch (lines 317 to 331).\<close>

definition zip_try :: "env \<Rightarrow> string \<Rightarrow> string \<Rightarrow> string \<Rightarrow> unit prog" where
  "zip_try env path task_id page_title_15 =
     py_bind (ensure_dir env (extract_dir_of path)) (\<lambda>_.
     py_bind (call env (ans_unit env) (EvZipExtract path (extract_dir_of path))) (\<lambda>_.
     py_bind (say (MsgZipOk (pname path))) (\<lambda>_.
     py_bind (call env (ans_walk env) (EvWalk (extract_dir_of path))) (\<lambda>walked.
     upload_inner_files env path task_id page_title_15 (walked_files walked)))))"

text \<open>The \<^verbatim>\<open>try\<close> block of the rar branch (lines 339 to 352).\<close>

definition rar_try :: "env \<Rightarrow> string \<Rightarrow> string \<Rightarrow> string \<Rightarrow> unit prog" where
  "rar_try env path task_id page_title_15 =
     py_bind (ensure_dir env (extract_dir_of path)) (\<lambda>_.
     py_bind (call env (ans_unit env) (EvRarExtract path (extract_dir_of path))) (\<lambda>_.
     py_bind (say (MsgRarOk (pname path))) (\<lambda>_.
     py_bind (call env (ans_walk env) (EvWalk (extract_dir_of path))) (\<lambda>walked.
     upload_inner_files env path task_id page_title_15 (walked_files walked)))))"

text \<open>The \<^verbatim>\<open>try\<close> block of the branch for any other file (lines 360 to 365).\<close>

definition plain_try :: "env \<Rightarrow> string \<Rightarrow> string \<Rightarrow> string \<Rightarrow> unit prog" where
  "plain_try env path task_id page_title_15 =
     py_bind (call env (ans_bool env)
                (EvExists (pjoin (pparent path) (plain_stdname task_id page_title_15 path)))) (\<lambda>ex.
     py_bind (if \<not> ex
              then call env (ans_unit env)
                     (EvCopy path (pjoin (pparent path) (plain_stdname task_id page_title_15 path)))
              else py_return ()) (\<lambda>_.
     py_bind (upload_file_to_bisheng env
                (pjoin (pparent path) (plain_stdname task_id page_title_15 path))) (\<lambda>r.
     py_bind (say (MsgUpload
                (pname (pjoin (pparent path) (plain_stdname task_id page_title_15 path)))
                (fst r) (snd r))) (\<lambda>_.
     if fst r
     then append_uploaded (pname (pjoin (pparent path) (plain_stdname task_id page_title_15 path)))
     else py_return ()))))"

text \<open>
  \<open>extract_and_upload_file\<close>: the branch is chosen by the lower-cased suffix; each branch
  is one \<^verbatim>\<open>try\<close> block whose handler appends a failure message. The lists
  \<^verbatim>\<open>uploaded\<close> and \<^verbatim>\<open>messages\<close> are the state's.
\<close>

definition extract_and_upload_file :: "env \<Rightarrow> string \<Rightarrow> string \<Rightarrow> string \<Rightarrow> unit prog" where
  "extract_and_upload_file env path task_id page_title_15 =
     (if lower (psuffix path) = ''.zip'' then
        py_try (zip_try env path task_id page_title_15)
          (\<lambda>e. say (MsgZipFailed (str_of_exn e)))
      else if lower (psuffix path) = ''.rar'' then
        (if \<not> patoolib_present env then say MsgNoPatool
         else py_try (rar_try env path task_id page_title_15)
                (\<lambda>e. say (MsgRarFailed (str_of_exn e))))
      else
        py_try (plain_try env path task_id page_title_15)
          (\<lambda>e. say (MsgUploadFailed
                 (pname (pjoin (pparent path) (plain_stdname task_id page_title_15 path)))
                 (str_of_exn e))))"

section \<open>Strategy B: links of the main page (lines 565 to 602)\<close>

definition py_get :: "(state \<Rightarrow> 'a) \<Rightarrow> 'a prog" where
  "py_get f st = (Inr (f st), st)"

definition append_downloaded :: "string \<Rightarrow> unit prog" where
  "append_downloaded p st = (Inr (), st\<lparr>downloaded := downloaded st @ [p]\<rparr>)"

definition append_cand :: "string \<Rightarrow> unit prog" where
  "append_cand u st = (Inr (), st\<lparr>cand := cand st @ [u]\<rparr>)"

definition new_downloaded :: "unit prog" where
  "new_downloaded st = (Inr (), st\<lparr>downloaded := []\<rparr>)"

definition new_cand :: "unit prog" where
  "new_cand st = (Inr (), st\<lparr>cand := []\<rparr>)"

text \<open>\<^verbatim>\<open>x or ''\<close> for an optional string.\<close>

definition or_empty :: "string option \<Rightarrow> string" where
  "or_empty x = (case x of None \<Rightarrow> [] | Some s \<Rightarrow> s)"

text \<open>The selectors the source passes to \<^verbatim>\<open>find_elements\<close>.\<close>

definition sel_a :: string where "sel_a = ''tag:a''"
definition sel_h3 :: string where "sel_h3 = ''tag:h3''"
definition sel_iframe :: string where "sel_iframe = ''tag:iframe''"
definition sel_triggers :: string where "sel_triggers = ''xpath:opendown''"
definition sel_candidates :: string where "sel_candidates = ''xpath:candidates''"

text \<open>
  The first loop (lines 573 to 580):
  \<^verbatim>\<open>
  for a in anchors:
      try:
          href = a.get_attribute('href') or ''
          txt = (a.text or a.get_attribute('title') or '').strip()
      except Exception:
          continue
      if href and not href.strip().lower().startswith('javascript') and looks_like_attachment(href):
          cand.append(href)
  \<close>
  The title is read only when the text is empty. Nothing compares \<open>href\<close> with what
  \<open>cand\<close> already holds.
\<close>

definition anchor_href :: "env \<Rightarrow> elem \<Rightarrow> string option prog" where
  "anchor_href env a =
     py_try
       (py_bind (call env (ans_ostr env) (EvGetAttribute a ''href'')) (\<lambda>h.
        py_bind (call env (ans_str env) (EvText a)) (\<lambda>txt.
        py_bind (if txt = [] then call env (ans_ostr env) (EvGetAttribute a ''title'')
                 else py_return None) (\<lambda>_.
        py_return (Some (or_empty h))))))
       (\<lambda>_. py_return None)"

fun scan_anchors :: "env \<Rightarrow> elem list \<Rightarrow> unit prog" where
  "scan_anchors env [] = py_return ()"
| "scan_anchors env (a # rest) =
     py_bind (anchor_href env a) (\<lambda>r.
     py_bind (case r of
                None \<Rightarrow> py_return ()
              | Some href \<Rightarrow>
                  if href \<noteq> [] \<and> \<not> startswith (lower (strip href)) ''javascript''
                     \<and> looks_like_attachment (Some href)
                  then append_cand href
                  else py_return ()) (\<lambda>_.
     scan_anchors env rest))"

text \<open>
  The second loop (lines 583 to 588), inside \<^verbatim>\<open>try: ... except Exception: pass\<close>:
  \<^verbatim>\<open>
  html = driver.page_source or ''
  for m in re.findall(r'href=[\'"]([^\'"]+)[\'"]', html, re.I):
      if looks_like_attachment(m):
          full = urljoin(driver.current_url, m)
          if full not in cand:
              cand.append(full)
  \<close>
\<close>

fun scan_matches :: "env \<Rightarrow> string list \<Rightarrow> unit prog" where
  "scan_matches env [] = py_return ()"
| "scan_matches env (m # rest) =
     py_bind (if looks_like_attachment (Some m)
              then py_bind (call env (ans_str env) EvCurrentUrl) (\<lambda>cur.
                   py_bind (py_lift (urljoin env cur m)) (\<lambda>full.
                   py_bind (py_get cand) (\<lambda>c.
                   if full \<notin> set c then append_cand full else py_return ())))
              else py_return ()) (\<lambda>_.
     scan_matches env rest)"

definition scan_page_source :: "env \<Rightarrow> unit prog" where
  "scan_page_source env =
     py_bind (call env (ans_ostr env) EvPageSource) (\<lambda>html.
     scan_matches env (re_href_findall env (or_empty html)))"

text \<open>
  The download loop (lines 592 to 598):
  \<^verbatim>\<open>
  for u in cand:
      try:
          path = download_with_session(session, u, work_dir)
          if path:
              downloaded.append(path)
      except Exception as e:
          messages.append(f"... {u} -> {e}")
  \<close>
\<close>

fun download_candidates :: "env \<Rightarrow> string \<Rightarrow> string list \<Rightarrow> unit prog" where
  "download_candidates env work_dir [] = py_return ()"
| "download_candidates env work_dir (u # rest) =
     py_bind (py_try
                (py_bind (download_with_session env u work_dir None) (\<lambda>path.
                 case path of Some p \<Rightarrow> append_downloaded p | None \<Rightarrow> py_return ()))
                (\<lambda>e. say (MsgB_DownloadFailed u (str_of_exn e)))) (\<lambda>_.
     download_candidates env work_dir rest)"

text \<open>The \<^verbatim>\<open>try\<close> block of the function (lines 569 to 598).\<close>

definition direct_links_try :: "env \<Rightarrow> string \<Rightarrow> unit prog" where
  "direct_links_try env work_dir =
     py_bind (call env (ans_unit env) EvSwitchDefault) (\<lambda>_.
     py_bind (call env (ans_elems env) (EvFindElements sel_a)) (\<lambda>anchors.
     py_bind new_cand (\<lambda>_.
     py_bind (scan_anchors env anchors) (\<lambda>_.
     py_bind (py_ignore (scan_page_source env)) (\<lambda>_.
     py_bind (py_get cand) (\<lambda>c.
     py_bind (say (MsgB_Candidates (length c))) (\<lambda>_.
     download_candidates env work_dir c)))))))"

definition strategy_direct_links ::
    "env \<Rightarrow> string \<Rightarrow> string \<Rightarrow> string \<Rightarrow> string list prog" where
  "strategy_direct_links env task_id page_title_15 work_dir =
     py_bind new_downloaded (\<lambda>_.
     py_bind (say MsgB_Begin) (\<lambda>_.
     py_bind (py_try (direct_links_try env work_dir)
                (\<lambda>e. say (MsgB_Error (str_of_exn e)))) (\<lambda>_.
     py_bind (py_get downloaded) (\<lambda>d.
     py_bind (say (MsgB_Total (length d))) (\<lambda>_.
     py_return d)))))"

section \<open>Strategy A: popups and iframes (lines 386 to 560)\<close>

definition CLICK_NEW_WINDOW_WAIT :: nat where
  "CLICK_NEW_WINDOW_WAIT = 8000"

definition PERF_POLL_ITER :: nat where
  "PERF_POLL_ITER = 6"

definition PERF_POLL_SLEEP :: nat where
  "PERF_POLL_SLEEP = 800"

text \<open>
  The triggers (lines 398 to 405):
  \<^verbatim>\<open>
  for t in triggers:
      try:
          driver.execute_script("arguments[0].scrollIntoView({block:'center'})", t)
          time.sleep(0.3)
          driver.execute_script("arguments[0].click();", t)
          time.sleep(0.4)
      except Exception as e:
          messages.append(f"... {e}")
  \<close>
\<close>

fun click_triggers :: "env \<Rightarrow> elem list \<Rightarrow> unit prog" where
  "click_triggers env [] = py_return ()"
| "click_triggers env (t # rest) =
     py_bind (py_try
                (py_bind (call env (ans_unit env) (EvExecuteScript ''scrollIntoView'' t)) (\<lambda>_.
                 py_bind (sleep env 300) (\<lambda>_.
                 py_bind (call env (ans_unit env) (EvExecuteScript ''click'' t)) (\<lambda>_.
                 sleep env 400))))
                (\<lambda>e. say (MsgA_TriggerFailed (str_of_exn e)))) (\<lambda>_.
     click_triggers env rest)"

text \<open>
  A download whose path, when there is one, is appended to \<^verbatim>\<open>downloaded\<close>; the value
  says whether it was (the source's \<^verbatim>\<open>got_one\<close>):
  \<^verbatim>\<open>
  p = download_with_session(session, url, work_dir)
  if p:
      downloaded.append(p)
      got_one = True
  \<close>
\<close>

definition download_and_keep :: "env \<Rightarrow> string \<Rightarrow> string \<Rightarrow> bool prog" where
  "download_and_keep env url work_dir =
     py_bind (download_with_session env url work_dir None) (\<lambda>path.
     case path of
       Some p \<Rightarrow> py_bind (append_downloaded p) (\<lambda>_. py_return True)
     | None \<Rightarrow> py_return False)"

text \<open>
  The click (lines 448 to 461):
  \<^verbatim>\<open>
  try:
      driver.execute_script("arguments[0].scrollIntoView({block:'center'})", el)
      driver.execute_script("arguments[0].click();", el)
  except UnexpectedAlertPresentException as e:
      try:
          alert = driver.switch_to.alert
          msg = alert.text
          messages.append(f"... {msg} -> dismiss")
          alert.dismiss()
      except Exception:
          pass
  except Exception as e:
      messages.append(f"... {e}")
  \<close>
\<close>

definition click_candidate :: "env \<Rightarrow> elem \<Rightarrow> unit prog" where
  "click_candidate env el =
     py_try
       (py_bind (call env (ans_unit env) (EvExecuteScript ''scrollIntoView'' el)) (\<lambda>_.
        call env (ans_unit env) (EvExecuteScript ''click'' el)))
       (\<lambda>e. case e of
          UnexpectedAlertPresentException _ \<Rightarrow>
            py_ignore
              (py_bind (call env (ans_unit env) EvSwitchAlert) (\<lambda>_.
               py_bind (call env (ans_str env) EvAlertText) (\<lambda>msg.
               py_bind (say (MsgA_Alert msg)) (\<lambda>_.
               call env (ans_unit env) EvAlertDismiss))))
        | Exception _ \<Rightarrow> say (MsgA_ClickFailed (str_of_exn e)))"

text \<open>
  Probe A, once a new window handle is there (lines 471 to 490):
  \<^verbatim>\<open>
  new_win = new[0]
  driver.switch_to.window(new_win)
  time.sleep(0.6)
  new_url = driver.current_url
  messages.append(f"... {new_url}")
  if new_url and new_url.startswith('http') and looks_like_attachment(new_url):
      p = download_with_session(session, new_url, work_dir)
      if p:
          downloaded.append(p)
          got_one = True
  try:
      driver.close()
  except Exception:
      pass
  try:
      driver.switch_to.window(list(base_handles)[0])
  except Exception:
      pass
  break
  \<close>
  \<open>new\<close> and \<open>base_handles\<close> come from Python sets; \<open>set_first\<close> is the element such a
  set yields first. Indexing the empty list raises.
\<close>

definition new_window_found :: "env \<Rightarrow> string \<Rightarrow> string list \<Rightarrow> string list \<Rightarrow> bool prog" where
  "new_window_found env work_dir base_handles new =
     py_bind (call env (ans_unit env) (EvSwitchWindow (set_first env new))) (\<lambda>_.
     py_bind (sleep env 600) (\<lambda>_.
     py_bind (call env (ans_str env) EvCurrentUrl) (\<lambda>new_url.
     py_bind (say (MsgA_NewWindow new_url)) (\<lambda>_.
     py_bind (if new_url \<noteq> [] \<and> startswith new_url ''http''
                 \<and> looks_like_attachment (Some new_url)
              then download_and_keep env new_url work_dir
              else py_return False) (\<lambda>got_one.
     py_bind (py_ignore (call env (ans_unit env) EvCloseWindow)) (\<lambda>_.
     py_bind (py_ignore
                (if base_handles = [] then py_raise (Exception ''list index out of range'')
                 else call env (ans_unit env) (EvSwitchWindow (set_first env base_handles)))) (\<lambda>_.
     py_return got_one)))))))"

text \<open>
  The polling loop of probe A (lines 466 to 491); \<open>t0\<close> is the clock when it started:
  \<^verbatim>\<open>
  while time.time() - t0 < CLICK_NEW_WINDOW_WAIT:
      now_handles = set(driver.window_handles)
      new = list(now_handles - base_handles)
      if new:
          ...
          break
      time.sleep(0.3)
  \<close>
\<close>

function await_window :: "env \<Rightarrow> string \<Rightarrow> string list \<Rightarrow> nat \<Rightarrow> bool prog" where
  "await_window env work_dir base_handles t0 st =
     (if clock st - t0 < CLICK_NEW_WINDOW_WAIT then
        (case call env (ans_strs env) EvWindowHandles st of
           (Inl e, st1) \<Rightarrow> (Inl e, st1)
         | (Inr now_handles, st1) \<Rightarrow>
             if filter (\<lambda>h. h \<notin> set base_handles) now_handles \<noteq> []
             then new_window_found env work_dir base_handles
                    (filter (\<lambda>h. h \<notin> set base_handles) now_handles) st1
             else await_window env work_dir base_handles t0 (snd (sleep env 300 st1)))
      else (Inr False, st))"
  by pat_completeness auto
termination
  by (relation "measure (\<lambda>(env, work_dir, base_handles, t0, st). t0 + CLICK_NEW_WINDOW_WAIT - clock st)")
    (auto simp: call_def sleep_def)

text \<open>
  Probe A (lines 465 to 493): the loop inside \<^verbatim>\<open>try\<close>; the handler appends a message
  and leaves \<^verbatim>\<open>got_one\<close> false.
\<close>

definition probe_new_window :: "env \<Rightarrow> string \<Rightarrow> string list \<Rightarrow> bool prog" where
  "probe_new_window env work_dir base_handles =
     py_try (\<lambda>st. await_window env work_dir base_handles (clock st) st)
       (\<lambda>e. py_bind (say (MsgA_WindowError (str_of_exn e))) (\<lambda>_. py_return False))"

text \<open>
  \<open>extract_urls_from_perf_logs\<close> (lines 197 to 287) reads the performance log and the
  response bodies, and collects URLs. It returns the list it has when reading the log
  fails, and every failure inside its loop is caught, so it never raises. The answer to
  \<open>EvPerfLogs\<close> stands for the list its loop collects.
\<close>

definition extract_urls_from_perf_logs :: "env \<Rightarrow> string list prog" where
  "extract_urls_from_perf_logs env =
     py_try (call env (ans_strs env) EvPerfLogs) (\<lambda>_. py_return [])"

text \<open>
  The inner loop of probe B (lines 502 to 507):
  \<^verbatim>\<open>
  for pu in perf_urls:
      if not pu.startswith('http'):
          pu = urljoin(driver.current_url, pu)
      if looks_like_attachment(pu) or 'down.bidcenter' in pu:
          perf_found = pu
          break
  \<close>
\<close>

fun pick_perf_url :: "env \<Rightarrow> string list \<Rightarrow> string option prog" where
  "pick_perf_url env [] = py_return None"
| "pick_perf_url env (pu # rest) =
     py_bind (if \<not> startswith pu ''http''
              then py_bind (call env (ans_str env) EvCurrentUrl) (\<lambda>cur.
                   py_lift (urljoin env cur pu))
              else py_return pu) (\<lambda>pu'.
     if looks_like_attachment (Some pu') \<or> contains pu' ''down.bidcenter''
     then py_return (Some pu')
     else pick_perf_url env rest)"

text \<open>
  The polling loop of probe B (lines 498 to 510), \<open>n\<close> rounds left:
  \<^verbatim>\<open>
  for _ in range(PERF_POLL_ITER):
      perf_urls = extract_urls_from_perf_logs(driver)
      if perf_urls:
          ...
      if perf_found:
          break
      time.sleep(PERF_POLL_SLEEP)
  \<close>
\<close>

fun poll_perf_logs :: "env \<Rightarrow> nat \<Rightarrow> string option prog" where
  "poll_perf_logs env 0 = py_return None"
| "poll_perf_logs env (Suc n) =
     py_bind (extract_urls_from_perf_logs env) (\<lambda>perf_urls.
     py_bind (pick_perf_url env perf_urls) (\<lambda>perf_found.
     case perf_found of
       Some u \<Rightarrow> py_return (Some u)
     | None \<Rightarrow> py_bind (sleep env PERF_POLL_SLEEP) (\<lambda>_. poll_perf_logs env n)))"

text \<open>Probe B (lines 497 to 516). Nothing catches what it raises but the candidate's handler.\<close>

definition probe_perf_logs :: "env \<Rightarrow> string \<Rightarrow> bool prog" where
  "probe_perf_logs env work_dir =
     py_bind (poll_perf_logs env PERF_POLL_ITER) (\<lambda>perf_found.
     case perf_found of
       None \<Rightarrow> py_return False
     | Some u \<Rightarrow>
         py_bind (say (MsgA_PerfFound u)) (\<lambda>_.
         download_and_keep env u work_dir))"

text \<open>
  Probe C (lines 520 to 540), all of it inside \<^verbatim>\<open>try: ... except Exception: pass\<close>:
  \<^verbatim>\<open>
  if selid:
      elc = driver.find_element(By.ID, selid)
      inner_html = elc.get_attribute('innerHTML') or ''
      m2 = re.search(r'href=[\'"]([^\'"]+)[\'"]', inner_html, re.I)
      if m2:
          candidate = m2.group(1)
          if not candidate.startswith('http'):
              candidate = urljoin(driver.current_url, candidate)
          messages.append(f"... {selid} ...: {candidate}")
          p = download_with_session(session, candidate, work_dir)
          if p:
              downloaded.append(p)
              got_one = True
  \<close>
\<close>

definition inspect_container :: "env \<Rightarrow> string \<Rightarrow> string \<Rightarrow> bool prog" where
  "inspect_container env work_dir selid =
     py_bind (call env (ans_elem env) (EvFindElementById selid)) (\<lambda>elc.
     py_bind (call env (ans_ostr env) (EvGetAttribute elc ''innerHTML'')) (\<lambda>inner_html.
     case re_href_search env (or_empty inner_html) of
       None \<Rightarrow> py_return False
     | Some c \<Rightarrow>
         py_bind (if \<not> startswith c ''http''
                  then py_bind (call env (ans_str env) EvCurrentUrl) (\<lambda>cur.
                       py_lift (urljoin env cur c))
                  else py_return c) (\<lambda>candidate.
         py_bind (say (MsgA_Container selid candidate)) (\<lambda>_.
         download_and_keep env candidate work_dir))))"

definition probe_dom_container :: "env \<Rightarrow> string \<Rightarrow> string option \<Rightarrow> bool prog" where
  "probe_dom_container env work_dir selid =
     (case selid of
        None \<Rightarrow> py_return False
      | Some s \<Rightarrow>
          if s = [] then py_return False
          else py_try (inspect_container env work_dir s) (\<lambda>_. py_return False))"

text \<open>
  What follows the test of the direct link (lines 442 to 542): the click, then the
  probes, each skipped once \<^verbatim>\<open>got_one\<close> is true (\<^verbatim>\<open>if got_one: continue\<close>), then a
  pause.
\<close>

definition resolve_by_click :: "env \<Rightarrow> string \<Rightarrow> string list \<Rightarrow> elem \<Rightarrow> string \<Rightarrow> unit prog" where
  "resolve_by_click env work_dir base_handles el onclick =
     py_bind (click_candidate env el) (\<lambda>_.
     py_bind (probe_new_window env work_dir base_handles) (\<lambda>got_one.
     if got_one then py_return ()
     else
       py_bind (probe_perf_logs env work_dir) (\<lambda>got_one.
       if got_one then py_return ()
       else
         py_bind (probe_dom_container env work_dir (re_validate_code env onclick)) (\<lambda>_.
         sleep env 300))))"

text \<open>
  The attributes of a candidate (lines 432 to 435):
  \<^verbatim>\<open>
  title = (el.get_attribute('title') or el.text or '').strip()[:120]
  messages.append(f"... {i+1}: '{title}'")
  href = el.get_attribute('href') or ''
  onclick = el.get_attribute('onclick') or ''
  \<close>
\<close>

definition candidate_attributes :: "env \<Rightarrow> nat \<Rightarrow> elem \<Rightarrow> (string \<times> string) prog" where
  "candidate_attributes env i el =
     py_bind (call env (ans_ostr env) (EvGetAttribute el ''title'')) (\<lambda>t.
     py_bind (if or_empty t \<noteq> [] then py_return (or_empty t)
              else call env (ans_str env) (EvText el)) (\<lambda>title.
     py_bind (say (MsgA_Candidate (i + 1) (take 120 (strip title)))) (\<lambda>_.
     py_bind (call env (ans_ostr env) (EvGetAttribute el ''href'')) (\<lambda>href.
     py_bind (call env (ans_ostr env) (EvGetAttribute el ''onclick'')) (\<lambda>onclick.
     py_return (or_empty href, or_empty onclick))))))"

text \<open>
  One candidate (lines 431 to 544). Case 1 (lines 436 to 441):
  \<^verbatim>\<open>
  if href and href.strip().lower().startswith('http') and looks_like_attachment(href):
      path = download_with_session(session, href, work_dir)
      if path:
          downloaded.append(path)
      continue
  \<close>
  The handler of the candidate's \<^verbatim>\<open>try\<close> appends a message.
\<close>

definition candidate_try :: "env \<Rightarrow> string \<Rightarrow> string list \<Rightarrow> nat \<Rightarrow> elem \<Rightarrow> unit prog" where
  "candidate_try env work_dir base_handles i el =
     py_bind (candidate_attributes env i el) (\<lambda>a.
     if fst a \<noteq> [] \<and> startswith (lower (strip (fst a))) ''http''
        \<and> looks_like_attachment (Some (fst a))
     then py_bind (download_and_keep env (fst a) work_dir) (\<lambda>_. py_return ())
     else resolve_by_click env work_dir base_handles el (snd a))"

definition process_candidate :: "env \<Rightarrow> string \<Rightarrow> string list \<Rightarrow> nat \<Rightarrow> elem \<Rightarrow> unit prog" where
  "process_candidate env work_dir base_handles i el =
     py_try (candidate_try env work_dir base_handles i el)
       (\<lambda>e. say (MsgA_CandidateError (str_of_exn e)))"

fun process_candidates :: "env \<Rightarrow> string \<Rightarrow> string list \<Rightarrow> nat \<Rightarrow> elem list \<Rightarrow> unit prog" where
  "process_candidates env work_dir base_handles i [] = py_return ()"
| "process_candidates env work_dir base_handles i (el # rest) =
     py_bind (process_candidate env work_dir base_handles i el) (\<lambda>_.
     process_candidates env work_dir base_handles (Suc i) rest)"

text \<open>
  One iframe (lines 413 to 556). Entering the frame is its own \<^verbatim>\<open>try\<close>, whose
  handler is \<^verbatim>\<open>continue\<close>; the \<^verbatim>\<open>finally\<close> clause returns to the default content
  on every path.
\<close>

definition enter_iframe :: "env \<Rightarrow> elem \<Rightarrow> bool prog" where
  "enter_iframe env ifr =
     py_try
       (py_bind (call env (ans_unit env) EvSwitchDefault) (\<lambda>_.
        py_bind (call env (ans_unit env) (EvSwitchFrame ifr)) (\<lambda>_.
        py_return True)))
       (\<lambda>_. py_return False)"

definition iframe_try :: "env \<Rightarrow> string \<Rightarrow> nat \<Rightarrow> elem \<Rightarrow> unit prog" where
  "iframe_try env work_dir idx ifr =
     py_bind (call env (ans_ostr env) (EvGetAttribute ifr ''src'')) (\<lambda>src.
     py_bind (enter_iframe env ifr) (\<lambda>entered.
     if \<not> entered then py_return ()
     else
       py_bind (say (MsgA_Enter idx (or_empty src))) (\<lambda>_.
       py_bind (call env (ans_elems env) (EvFindElements sel_candidates)) (\<lambda>cands.
       py_bind (say (MsgA_Candidates idx (length cands))) (\<lambda>_.
       py_bind (call env (ans_strs env) EvWindowHandles) (\<lambda>base_handles.
       py_bind (process_candidates env work_dir base_handles 0 cands) (\<lambda>_.
       py_ignore (call env (ans_unit env) EvSwitchDefault))))))))"

definition process_iframe :: "env \<Rightarrow> string \<Rightarrow> nat \<Rightarrow> elem \<Rightarrow> unit prog" where
  "process_iframe env work_dir idx ifr =
     py_bind (py_try (iframe_try env work_dir idx ifr)
                (\<lambda>e. say (MsgA_IframeError idx (str_of_exn e)))) (\<lambda>_.
     py_ignore (call env (ans_unit env) EvSwitchDefault))"

fun process_iframes :: "env \<Rightarrow> string \<Rightarrow> nat \<Rightarrow> elem list \<Rightarrow> unit prog" where
  "process_iframes env work_dir idx [] = py_return ()"
| "process_iframes env work_dir idx (ifr # rest) =
     py_bind (process_iframe env work_dir idx ifr) (\<lambda>_.
     process_iframes env work_dir (Suc idx) rest)"

text \<open>The \<^verbatim>\<open>try\<close> block of the function (lines 390 to 556).\<close>

definition iframe_popups_try :: "env \<Rightarrow> string \<Rightarrow> unit prog" where
  "iframe_popups_try env work_dir =
     py_bind (py_try (call env (ans_elems env) (EvFindElements sel_triggers))
                (\<lambda>_. py_return [])) (\<lambda>triggers.
     py_bind (if triggers \<noteq> []
              then py_bind (say (MsgA_Triggers (length triggers))) (\<lambda>_.
                   click_triggers env triggers)
              else say MsgA_NoTriggers) (\<lambda>_.
     py_bind (call env (ans_elems env) (EvFindElements sel_iframe)) (\<lambda>iframes.
     py_bind (say (MsgA_Iframes (length iframes))) (\<lambda>_.
     process_iframes env work_dir 0 iframes))))"

definition strategy_iframe_popups ::
    "env \<Rightarrow> string \<Rightarrow> string \<Rightarrow> string \<Rightarrow> string list prog" where
  "strategy_iframe_popups env task_id page_title_15 work_dir =
     py_bind (say MsgA_Begin) (\<lambda>_.
     py_bind new_downloaded (\<lambda>_.
     py_bind (py_try (iframe_popups_try env work_dir)
                (\<lambda>e. say (MsgA_Error (str_of_exn e)))) (\<lambda>_.
     py_bind (py_get downloaded) (\<lambda>d.
     py_bind (say (MsgA_Total (length d))) (\<lambda>_.
     py_return d)))))"

section \<open>The single-task processor (lines 607 to 686)\<close>

definition DOWNLOAD_WORK_DIR :: string where
  "DOWNLOAD_WORK_DIR = ''/root/scraper_project/temp_downloads''"

text \<open>
  The result is a Python \<^verbatim>\<open>dict\<close> with string keys: an association list, looked up
  with \<^const>\<open>map_of\<close>. Its values are strings, a formatted message, the upload
  report (formatted from the number of uploaded files), lists of names and the
  narrative log.
\<close>

datatype pyval =
    VStr string
  | VMsg msg
  | VReport nat
  | VNames "string list"
  | VMsgs "msg list"

type_synonym result = "(string \<times> pyval) list"

text \<open>\<^verbatim>\<open>res.get('status')\<close> and \<^verbatim>\<open>res.get('uploaded', [])\<close> (lines 750 to 752).\<close>

definition status_of :: "result \<Rightarrow> pyval option" where
  "status_of res = map_of res ''status''"

definition uploaded_of :: "result \<Rightarrow> string list" where
  "uploaded_of res = (case map_of res ''uploaded'' of Some (VNames ns) \<Rightarrow> ns | _ \<Rightarrow> [])"

text \<open>
  The working directory (lines 610 to 613), before the \<^verbatim>\<open>try\<close>:
  \<^verbatim>\<open>
  work_dir = Path(DOWNLOAD_WORK_DIR) / task_id
  if work_dir.exists():
      shutil.rmtree(work_dir, ignore_errors=True)
  ensure_dir(work_dir)
  \<close>
  With \<^verbatim>\<open>ignore_errors\<close> the removal never raises.
\<close>

definition work_dir_of :: "string \<Rightarrow> string" where
  "work_dir_of task_id = pjoin DOWNLOAD_WORK_DIR task_id"

definition prepare_work_dir :: "env \<Rightarrow> string \<Rightarrow> unit prog" where
  "prepare_work_dir env task_id =
     py_bind (call env (ans_bool env) (EvExists (work_dir_of task_id))) (\<lambda>ex.
     py_bind (if ex then emit env (EvRmtree (work_dir_of task_id)) else py_return ()) (\<lambda>_.
     ensure_dir env (work_dir_of task_id)))"

text \<open>
  The title (lines 624 to 635):
  \<^verbatim>\<open>
  try:
      h3s = driver.find_elements(By.TAG_NAME, 'h3')
      page_title = ""
      for h in h3s:
          t = (h.text or "").strip()
          if t:
              page_title = t
              break
      if not page_title:
          page_title = driver.title or ""
  except Exception:
      page_title = driver.title or ""
  \<close>
\<close>

fun first_heading :: "env \<Rightarrow> elem list \<Rightarrow> string prog" where
  "first_heading env [] = py_return []"
| "first_heading env (h # rest) =
     py_bind (call env (ans_str env) (EvText h)) (\<lambda>t.
     if strip t \<noteq> [] then py_return (strip t) else first_heading env rest)"

definition driver_title :: "env \<Rightarrow> string prog" where
  "driver_title env = py_bind (call env (ans_ostr env) EvTitle) (\<lambda>t. py_return (or_empty t))"

definition read_page_title :: "env \<Rightarrow> string prog" where
  "read_page_title env =
     py_try
       (py_bind (call env (ans_elems env) (EvFindElements sel_h3)) (\<lambda>h3s.
        py_bind (first_heading env h3s) (\<lambda>page_title.
        if page_title = [] then driver_title env else py_return page_title)))
       (\<lambda>_. driver_title env)"

text \<open>
  \<open>session_from_driver\<close> (lines 182 to 192) copies the browser's cookies inside
  \<^verbatim>\<open>try: ... except Exception: pass\<close>; the session itself is the environment's.
\<close>

definition session_from_driver :: "env \<Rightarrow> unit prog" where
  "session_from_driver env = py_ignore (call env (ans_unit env) EvGetCookies)"

text \<open>From the started browser to the short title (lines 620 to 637).\<close>

definition open_page :: "env \<Rightarrow> string \<Rightarrow> string prog" where
  "open_page env url =
     py_bind (say MsgBrowserStarted) (\<lambda>_.
     py_bind (call env (ans_unit env) (EvGet url)) (\<lambda>_.
     py_bind (sleep env 1000) (\<lambda>_.
     py_bind (read_page_title env) (\<lambda>page_title.
     py_bind (say (MsgTitle15 (short_title env page_title))) (\<lambda>_.
     py_return (short_title env page_title))))))"

text \<open>
  The two strategies (lines 639 to 655):
  \<^verbatim>\<open>
  session = session_from_driver(driver)
  messages.append(...)
  downloaded_a = strategy_iframe_popups(driver, session, task_id, page_title_15, work_dir, messages)
  messages.append(f"... {len(downloaded_a)}")
  downloaded_b = []
  if not downloaded_a:
      messages.append(...)
      downloaded_b = strategy_direct_links(driver, session, task_id, page_title_15, work_dir, messages)
      messages.append(f"... {len(downloaded_b)}")
  else:
      messages.append(...)
  downloaded = downloaded_a + downloaded_b
  \<close>
\<close>

definition collect_downloads :: "env \<Rightarrow> string \<Rightarrow> string \<Rightarrow> string \<Rightarrow> string list prog" where
  "collect_downloads env task_id page_title_15 work_dir =
     py_bind (session_from_driver env) (\<lambda>_.
     py_bind (say MsgStartA) (\<lambda>_.
     py_bind (strategy_iframe_popups env task_id page_title_15 work_dir) (\<lambda>downloaded_a.
     py_bind (say (MsgCountA (length downloaded_a))) (\<lambda>_.
     py_bind (if downloaded_a = []
              then py_bind (say MsgFallbackB) (\<lambda>_.
                   py_bind (strategy_direct_links env task_id page_title_15 work_dir) (\<lambda>downloaded_b.
                   py_bind (say (MsgCountB (length downloaded_b))) (\<lambda>_.
                   py_return downloaded_b)))
              else py_bind (say MsgSkipB) (\<lambda>_. py_return [])) (\<lambda>downloaded_b.
     py_return (downloaded_a @ downloaded_b))))))"

text \<open>
  The upload loop (lines 662 to 666); a \<^verbatim>\<open>Path\<close> is never falsy, so the test is the
  existence of the file:
  \<^verbatim>\<open>
  for f in downloaded:
      if not f or not Path(f).exists():
          messages.append(f"... {f}")
          continue
      extract_and_upload_file(Path(f), task_id, page_title_15, uploaded, messages)
  \<close>
\<close>

fun upload_downloaded :: "env \<Rightarrow> string \<Rightarrow> string \<Rightarrow> string list \<Rightarrow> unit prog" where
  "upload_downloaded env task_id page_title_15 [] = py_return ()"
| "upload_downloaded env task_id page_title_15 (f # rest) =
     py_bind (call env (ans_bool env) (EvExists f)) (\<lambda>ex.
     py_bind (if \<not> ex then say (MsgFileMissing f)
              else extract_and_upload_file env f task_id page_title_15) (\<lambda>_.
     upload_downloaded env task_id page_title_15 rest))"

definition new_uploaded :: "unit prog" where
  "new_uploaded st = (Inr (), st\<lparr>uploaded := []\<rparr>)"

text \<open>
  The \<^verbatim>\<open>try\<close> block once the driver exists (lines 620 to 669), with its two
  \<^verbatim>\<open>return\<close> statements.
\<close>

definition task_try :: "env \<Rightarrow> string \<Rightarrow> string \<Rightarrow> result prog" where
  "task_try env task_id url =
     py_bind (open_page env url) (\<lambda>page_title_15.
     py_bind (collect_downloads env task_id page_title_15 (work_dir_of task_id)) (\<lambda>dl.
     if dl = [] then
       py_bind (say (MsgNoAttachment task_id)) (\<lambda>_.
       py_bind (py_get msgs) (\<lambda>ms.
       py_return [(''status'', VStr ''no_content''),
                  (''message'', VMsg (MsgNoAttachment task_id)),
                  (''messages'', VMsgs ms)]))
     else
       py_bind new_uploaded (\<lambda>_.
       py_bind (upload_downloaded env task_id page_title_15 dl) (\<lambda>_.
       py_bind (py_get uploaded) (\<lambda>up.
       py_bind (say (MsgTaskEnd task_id (length up))) (\<lambda>_.
       py_bind (py_get msgs) (\<lambda>ms.
       py_return [(''status'', VStr ''success''),
                  (''report'', VReport (length up)),
                  (''uploaded'', VNames up),
                  (''messages'', VMsgs ms)])))))))"

text \<open>
  The handler (lines 671 to 680); \<open>has_driver\<close> is the test \<^verbatim>\<open>if driver\<close>:
  \<^verbatim>\<open>
  except Exception as e:
      tb = traceback.format_exc()
      logger.error(f"... {task_id} ...: {e}\n{tb}")
      messages.append(f"... {e}")
      try:
          if driver:
              driver.quit()
      except Exception:
          pass
      return {'status': 'error', 'message': str(e), 'messages': messages}
  \<close>
\<close>

definition task_crashed :: "env \<Rightarrow> string \<Rightarrow> bool \<Rightarrow> exn \<Rightarrow> result prog" where
  "task_crashed env task_id has_driver e =
     py_bind (emit env (EvLogError (LogTaskCrashed task_id (str_of_exn e)))) (\<lambda>_.
     py_bind (say (MsgTaskFailed (str_of_exn e))) (\<lambda>_.
     py_bind (if has_driver then py_ignore (call env (ans_unit env) EvQuit)
              else py_return ()) (\<lambda>_.
     py_bind (py_get msgs) (\<lambda>ms.
     py_return [(''status'', VStr ''error''),
                (''message'', VStr (str_of_exn e)),
                (''messages'', VMsgs ms)]))))"

text \<open>
  \<open>build_driver\<close> (lines 133 to 177) starts the browser; it is one call here. The
  \<^verbatim>\<open>try\<close> statement of the task (lines 616 to 686): when \<open>build_driver\<close> raises,
  \<^verbatim>\<open>driver\<close> is still \<^verbatim>\<open>None\<close> and nothing is quit; otherwise the \<^verbatim>\<open>finally\<close>
  clause quits the driver after either \<^verbatim>\<open>return\<close>, inside
  \<^verbatim>\<open>try: ... except Exception: pass\<close>.
\<close>

definition build_driver :: "env \<Rightarrow> string \<Rightarrow> unit prog" where
  "build_driver env download_dir = call env (ans_unit env) (EvBuildDriver download_dir)"

definition task_with_driver :: "env \<Rightarrow> string \<Rightarrow> string \<Rightarrow> result prog" where
  "task_with_driver env task_id url =
     py_bind (py_try (task_try env task_id url) (task_crashed env task_id True)) (\<lambda>res.
     py_bind (py_ignore (call env (ans_unit env) EvQuit)) (\<lambda>_.
     py_return res))"

definition handle_single_task :: "env \<Rightarrow> string \<Rightarrow> string \<Rightarrow> result prog" where
  "handle_single_task env task_id url =
     py_bind (say (MsgTaskReceived task_id)) (\<lambda>_.
     py_bind (prepare_work_dir env task_id) (\<lambda>_.
     py_bind (say (MsgWorkDir (work_dir_of task_id))) (\<lambda>_.
     (\<lambda>st. case build_driver env (work_dir_of task_id) st of
              (Inl e, st1) \<Rightarrow> task_crashed env task_id False e st1
            | (Inr _, st1) \<Rightarrow> task_with_driver env task_id url st1))))"

section \<open>A test environment\<close>

text \<open>
  An environment in which every call succeeds and finds nothing, the HTTP status is 200
  and no time passes; the examples below vary it field by field.
\<close>

definition env0 :: env where
  "env0 = \<lparr> ans_unit = (\<lambda>_ _. Inr ()), ans_bool = (\<lambda>_ _. Inr False), ans_nat = (\<lambda>_ _. Inr 200),
     ans_str = (\<lambda>_ _. Inr []), ans_ostr = (\<lambda>_ _. Inr None), ans_strs = (\<lambda>_ _. Inr []),
     ans_elems = (\<lambda>_ _. Inr []), ans_elem = (\<lambda>_ _. Inl (Exception ''no such element'')),
     ans_walk = (\<lambda>_ _. Inr []), latency = (\<lambda>_ _. 0), short_title = take 15,
     derive_filename_from_url = (\<lambda>u. Inr (pname u)), urljoin = (\<lambda>b u. Inr (pjoin (pparent b) u)),
     re_validate_code = (\<lambda>_. None), re_href_search = (\<lambda>_. None), re_href_findall = (\<lambda>_. []),
     patoolib_present = False, http_error = (\<lambda>n. Exception (str_of_nat n @ '' Error'')),
     set_first = hd \<rparr>"

definition st0 :: state where
  "st0 = \<lparr> hist = [], msgs = [], clock = 0, downloaded = [], uploaded = [], cand = [], failed = [] \<rparr>"



text \<open>
  A page with two anchors that point to the same file \<^verbatim>\<open>http://site/a.pdf\<close>, and no
  link in its markup.
\<close>

definition env_two_anchors :: env where
  "env_two_anchors =
     env0\<lparr>ans_elems := (\<lambda>_ ev. if ev = EvFindElements sel_a then Inr [1, 2] else Inr []),
          ans_ostr := (\<lambda>_ ev. case ev of
              EvGetAttribute a k \<Rightarrow> if k = ''href'' then Inr (Some ''http://site/a.pdf'') else Inr None
            | _ \<Rightarrow> Inr None)\<rparr>"

text \<open>
  A click that opens a window \<^verbatim>\<open>popup\<close> showing \<^verbatim>\<open>http://files/a.pdf\<close>, while the
  performance log would also yield \<^verbatim>\<open>http://files/b.pdf\<close>.
\<close>

definition env_popup :: env where
  "env_popup =
     env0\<lparr>ans_strs := (\<lambda>_ ev. case ev of
              EvWindowHandles \<Rightarrow> Inr [''main'', ''popup'']
            | EvPerfLogs \<Rightarrow> Inr [''http://files/b.pdf'']
            | _ \<Rightarrow> Inr []),
          ans_str := (\<lambda>_ ev. case ev of
              EvCurrentUrl \<Rightarrow> Inr ''http://files/a.pdf''
            | _ \<Rightarrow> Inr [])\<rparr>"

section \<open>Predicates used in the statements\<close>

text \<open>
  The multipart POST of \<open>upload_file_to_bisheng\<close> completes with a non-error status: the
  file opens, the request returns, and the status is outside 400 to 599.
\<close>

definition post_completes :: "env \<Rightarrow> string \<Rightarrow> state \<Rightarrow> nat \<Rightarrow> bool" where
  "post_completes env p st status =
     (ans_unit env (hist st) (EvOpenRead p) = Inr () \<and>
      ans_nat env (hist st @ [EvOpenRead p]) (EvPost upload_endpoint (pname p)) = Inr status \<and>
      \<not> (400 \<le> status \<and> status < 600))"

text \<open>The files handed to the uploader, in order: each upload starts by opening its file.\<close>

definition upload_attempts :: "event list \<Rightarrow> string list" where
  "upload_attempts evs = concat (map (\<lambda>e. case e of EvOpenRead p \<Rightarrow> [p] | _ \<Rightarrow> []) evs)"



text \<open>
  \<open>adds P m\<close>: whatever the state and the outcome, running \<open>m\<close> only appends events to
  the history, and every event it appends satisfies \<open>P\<close>.
\<close>

definition grows :: "(event \<Rightarrow> bool) \<Rightarrow> state \<Rightarrow> state \<Rightarrow> bool" where
  "grows P st st' = (\<exists>evs. hist st' = hist st @ evs \<and> list_all P evs)"

definition adds :: "(event \<Rightarrow> bool) \<Rightarrow> 'a prog \<Rightarrow> bool" where
  "adds P m = (\<forall>st. grows P st (snd (m st)))"

definition is_rmtree :: "event \<Rightarrow> bool" where
  "is_rmtree e = (case e of EvRmtree p \<Rightarrow> True | _ \<Rightarrow> False)"

definition keeps_files :: "event \<Rightarrow> bool" where
  "keeps_files e = (\<not> is_rmtree e)"

text \<open>
  The events of a download, of reading a candidate's attributes, of the click, and of
  each of the three probes (a probe may download, and probes B and C may read the
  current URL to resolve a relative link).
\<close>

definition download_ev :: "event \<Rightarrow> bool" where
  "download_ev e =
     (case e of EvMkdir p \<Rightarrow> True | EvLogInfo l \<Rightarrow> True | EvLogWarning l \<Rightarrow> True
      | EvHttpGet u \<Rightarrow> True | EvWriteBody p \<Rightarrow> True | _ \<Rightarrow> False)"

definition attr_ev :: "event \<Rightarrow> bool" where
  "attr_ev e = (case e of EvGetAttribute el k \<Rightarrow> True | EvText el \<Rightarrow> True | _ \<Rightarrow> False)"

definition click_ev :: "event \<Rightarrow> bool" where
  "click_ev e =
     (case e of EvExecuteScript s el \<Rightarrow> True | EvSwitchAlert \<Rightarrow> True | EvAlertText \<Rightarrow> True
      | EvAlertDismiss \<Rightarrow> True | _ \<Rightarrow> False)"

definition probe_a_ev :: "event \<Rightarrow> bool" where
  "probe_a_ev e =
     (download_ev e \<or>
      (case e of EvWindowHandles \<Rightarrow> True | EvSwitchWindow h \<Rightarrow> True | EvCurrentUrl \<Rightarrow> True
       | EvCloseWindow \<Rightarrow> True | EvSleep n \<Rightarrow> True | _ \<Rightarrow> False))"

definition probe_b_ev :: "event \<Rightarrow> bool" where
  "probe_b_ev e =
     (download_ev e \<or>
      (case e of EvPerfLogs \<Rightarrow> True | EvCurrentUrl \<Rightarrow> True | EvSleep n \<Rightarrow> True | _ \<Rightarrow> False))"

definition probe_c_ev :: "event \<Rightarrow> bool" where
  "probe_c_ev e =
     (download_ev e \<or>
      (case e of EvFindElementById s \<Rightarrow> True | EvGetAttribute el k \<Rightarrow> True
       | EvCurrentUrl \<Rightarrow> True | _ \<Rightarrow> False))"

text \<open>The events appended to the history between two states.\<close>

definition new_events :: "state \<Rightarrow> state \<Rightarrow> event list" where
  "new_events st st' = drop (length (hist st)) (hist st')"

text \<open>
  Counting in a list of events: the time slept (milliseconds), the polls of the window
  handles, the polls of the performance log, the lookups of a container by its id.
  \<open>costs w b m\<close>: whatever the state and the outcome, the events \<open>m\<close> appends weigh at
  most \<open>b\<close>.
\<close>

definition cost :: "(event \<Rightarrow> nat) \<Rightarrow> event list \<Rightarrow> nat" where
  "cost w evs = sum_list (map w evs)"

definition w_sleep :: "event \<Rightarrow> nat" where
  "w_sleep e = (case e of EvSleep n \<Rightarrow> n | _ \<Rightarrow> 0)"

definition w_window_poll :: "event \<Rightarrow> nat" where
  "w_window_poll e = (case e of EvWindowHandles \<Rightarrow> 1 | _ \<Rightarrow> 0)"

definition w_perf_poll :: "event \<Rightarrow> nat" where
  "w_perf_poll e = (case e of EvPerfLogs \<Rightarrow> 1 | _ \<Rightarrow> 0)"

definition w_lookup :: "event \<Rightarrow> nat" where
  "w_lookup e = (case e of EvFindElementById s \<Rightarrow> 1 | _ \<Rightarrow> 0)"

definition costs :: "(event \<Rightarrow> nat) \<Rightarrow> nat \<Rightarrow> 'a prog \<Rightarrow> bool" where
  "costs w b m = (\<forall>st. \<exists>evs. hist (snd (m st)) = hist st @ evs \<and> cost w evs \<le> b)"



text \<open>
  The calls whose exception reaches the handler of the task: starting the browser,
  loading the page, reading the document title, testing that a file exists. The cause
  of a failed task is the last call that raised, the attempts to quit the browser (which
  the handler and the \<^verbatim>\<open>finally\<close> clause make and ignore) left aside.
\<close>

definition is_fatal :: "event \<Rightarrow> bool" where
  "is_fatal e =
     (case e of EvBuildDriver d \<Rightarrow> True | EvGet u \<Rightarrow> True | EvTitle \<Rightarrow> True
      | EvExists p \<Rightarrow> True | _ \<Rightarrow> False)"

definition cause_is_fatal :: "event list \<Rightarrow> bool" where
  "cause_is_fatal fs =
     (filter (\<lambda>e. e \<noteq> EvQuit) fs \<noteq> [] \<and> is_fatal (last (filter (\<lambda>e. e \<noteq> EvQuit) fs)))"

text \<open>
  \<open>never_raises m\<close>: \<open>m\<close> returns a value from every state. \<open>fatal_only m\<close>: when \<open>m\<close>
  raises, the last call that was answered with an exception is one of the four above.
\<close>

definition never_raises :: "'a prog \<Rightarrow> bool" where
  "never_raises m = (\<forall>st. \<exists>x st'. m st = (Inr x, st'))"

definition fatal_only :: "'a prog \<Rightarrow> bool" where
  "fatal_only m =
     (\<forall>st. case m st of
             (Inl e, st') \<Rightarrow> failed st' \<noteq> [] \<and> is_fatal (last (failed st'))
           | (Inr x, st') \<Rightarrow> True)"

text \<open>
  A page on which, once loaded, the browser no longer answers: finding the headings
  raises, and so does reading the title.
\<close>

definition env_title_fails :: env where
  "env_title_fails =
     env0\<lparr>ans_elems := (\<lambda>_ ev. if ev = EvFindElements sel_h3
                                then Inl (Exception ''chrome not reachable'') else Inr []),
          ans_ostr := (\<lambda>_ ev. if ev = EvTitle
                               then Inl (Exception ''chrome not reachable'') else Inr None)\<rparr>"

text \<open>A page that does not load: \<^verbatim>\<open>driver.get\<close> times out.\<close>

definition env_get_fails :: env where
  "env_get_fails =
     env0\<lparr>ans_unit := (\<lambda>_ ev. case ev of EvGet u \<Rightarrow> Inl (Exception ''timeout'') | _ \<Rightarrow> Inr ())\<rparr>"

text \<open>A task whose working directory cannot be created.\<close>

definition env_mkdir_fails :: env where
  "env_mkdir_fails =
     env0\<lparr>ans_unit := (\<lambda>_ ev. if ev = EvMkdir (work_dir_of ''7'')
                               then Inl (Exception ''File exists'') else Inr ())\<rparr>"

section \<open>Properties of the attachment predicate\<close>

lemma looks_like_attachment_suffix:
  "looks_like_attachment (Some u) = list_ex (endswith (lower u)) ATTACH_EXTS"
proof (cases "u = []")
  case True
  then show ?thesis
    by (simp add: looks_like_attachment_def lower_def endswith_def ATTACH_EXTS_def)
next
  case False
  have "list_ex (\<lambda>ext. endswith s ext \<or> (contains s ext \<and> list_ex (endswith s) xs)) xs
        = list_ex (endswith s) xs" for s xs
    by (auto simp: list_ex_iff)
  with False show ?thesis
    by (simp add: looks_like_attachment_def Let_def)
qed

text \<open>
  C8 (as amended). The predicate looks at the whole string, not at the path of a URL:
  \<open>looks_like_attachment u\<close> holds exactly when the lower-cased string \<open>u\<close> itself ends
  in one of the eight extensions; \<open>None\<close> is never an attachment.
\<close>

theorem looks_like_attachment_whole_string:
  "looks_like_attachment (Some u) =
     (endswith (lower u) ''.pdf'' \<or> endswith (lower u) ''.doc'' \<or> endswith (lower u) ''.docx''
      \<or> endswith (lower u) ''.xls'' \<or> endswith (lower u) ''.xlsx'' \<or> endswith (lower u) ''.zip''
      \<or> endswith (lower u) ''.rar'' \<or> endswith (lower u) ''.txt'')
   \<and> \<not> looks_like_attachment None"
  by (simp add: looks_like_attachment_suffix ATTACH_EXTS_def)
    (simp add: looks_like_attachment_def)

text \<open>
  C8 (as stated) fails: the URL \<^verbatim>\<open>http://x/a.pdf?v=1\<close> has the path \<^verbatim>\<open>/a.pdf\<close>, which
  ends in a recognised extension, yet the predicate rejects it because the string ends in
  the query.
\<close>

theorem looks_like_attachment_path_counterexample:
  "spec_attachment_shaped ''http://x/a.pdf?v=1'' \<and> \<not> looks_like_attachment (Some ''http://x/a.pdf?v=1'')"
  by (simp add: spec_attachment_shaped_def spec_url_path_def drop_authority_def drop_scheme_def
      is_scheme_char_def startswith_def looks_like_attachment_suffix ATTACH_EXTS_def
      endswith_def lower_def lower_char_def)

lemmas prog_defs = py_bind_def py_try_def py_return_def py_raise_def py_lift_def call_def emit_def
  sleep_def say_def ensure_dir_def raise_for_status_def

section \<open>Upload and download never raise\<close>

text \<open>
  C10. \<open>upload_file_to_bisheng\<close> never raises: it returns \<open>(True, HTTP<status>)\<close> when the
  POST completes with a non-error status, and \<open>(False, UploadFailed: ...)\<close> in every other
  case (the file does not open, the request fails or times out, the status is an error).
\<close>

theorem upload_file_to_bisheng_outcome:
  "(\<exists>r. fst (upload_file_to_bisheng env p st) = Inr r) \<and>
   (post_completes env p st status \<longrightarrow>
      fst (upload_file_to_bisheng env p st) = Inr (True, ''HTTP'' @ str_of_nat status)) \<and>
   ((\<forall>s. \<not> post_completes env p st s) \<longrightarrow>
      (\<exists>e. fst (upload_file_to_bisheng env p st) = Inr (False, ''UploadFailed: '' @ str_of_exn e)))"
  unfolding upload_file_to_bisheng_def upload_try_def post_completes_def prog_defs
  by (auto split: sum.splits prod.splits simp del: str_of_nat.simps)

theorem upload_file_to_bisheng_witness:
  "fst (upload_file_to_bisheng env0 ''/w/7/a.pdf'' st0) = Inr (True, ''HTTP200'') \<and>
   (\<exists>e. fst (upload_file_to_bisheng (env0\<lparr>ans_nat := (\<lambda>_ _. Inr 500)\<rparr>) ''/w/7/a.pdf'' st0)
        = Inr (False, ''UploadFailed: '' @ str_of_exn e))"
proof -
  have ok: "post_completes env0 ''/w/7/a.pdf'' st0 200"
    by (simp add: post_completes_def env0_def st0_def)
  have bad: "\<forall>s. \<not> post_completes (env0\<lparr>ans_nat := (\<lambda>_ _. Inr 500)\<rparr>) ''/w/7/a.pdf'' st0 s"
    by (simp add: post_completes_def env0_def st0_def)
  from ok upload_file_to_bisheng_outcome [of env0 "''/w/7/a.pdf''" st0 200]
  have "fst (upload_file_to_bisheng env0 ''/w/7/a.pdf'' st0) = Inr (True, ''HTTP'' @ str_of_nat 200)"
    by blast
  moreover have "str_of_nat 200 = ''200''" by simp
  ultimately have 1: "fst (upload_file_to_bisheng env0 ''/w/7/a.pdf'' st0) = Inr (True, ''HTTP200'')"
    by simp
  from bad upload_file_to_bisheng_outcome [of "env0\<lparr>ans_nat := (\<lambda>_ _. Inr 500)\<rparr>" "''/w/7/a.pdf''" st0 0]
  have 2: "\<exists>e. fst (upload_file_to_bisheng (env0\<lparr>ans_nat := (\<lambda>_ _. Inr 500)\<rparr>) ''/w/7/a.pdf'' st0)
        = Inr (False, ''UploadFailed: '' @ str_of_exn e)"
    by blast
  from 1 2 show ?thesis by blast
qed



section \<open>Archives are uploaded file by file\<close>

lemma upload_attempts_append [simp]:
  "upload_attempts (a @ b) = upload_attempts a @ upload_attempts b"
  by (simp add: upload_attempts_def)

lemma upload_attempts_simps [simp]:
  "upload_attempts [] = []"
  "upload_attempts (EvOpenRead p # es) = p # upload_attempts es"
  "upload_attempts (EvPost a b # es) = upload_attempts es"
  "upload_attempts (EvCopy a b # es) = upload_attempts es"
  "upload_attempts (EvMkdir a # es) = upload_attempts es"
  "upload_attempts (EvZipExtract a b # es) = upload_attempts es"
  "upload_attempts (EvWalk a # es) = upload_attempts es"
  by (simp_all add: upload_attempts_def)





lemma takeWhile_length_le: "length (takeWhile P xs) \<le> length xs"
  by (induction xs) auto

lemma pname_length: "length (pname p) \<le> length p"
  unfolding pname_def using takeWhile_length_le [of _ "rev p"] by simp



lemmas path_defs = pjoin_def pname_def pparent_def psuffix_def pstem_def startswith_def
  lower_def lower_char_def extract_dir_of_def inner_stdname_def plain_stdname_def walked_files_def



section \<open>Strategy B does not deduplicate the anchors\<close>

text \<open>
  The loop over the page source adds a URL only when the list does not hold it yet, so
  it never introduces a duplicate.
\<close>

lemma scan_matches_distinct:
  "distinct (cand st) \<Longrightarrow> distinct (cand (snd (scan_matches env ms st)))"
proof (induction ms arbitrary: st)
  case Nil
  then show ?case by (simp add: py_return_def)
next
  case (Cons m rest)
  show ?case
  proof (cases "looks_like_attachment (Some m)")
    case False
    with Cons show ?thesis by (simp add: py_bind_def py_return_def)
  next
    case True
    let ?step = "py_bind (call env (ans_str env) EvCurrentUrl) (\<lambda>cur.
                   py_bind (py_lift (urljoin env cur m)) (\<lambda>full.
                   py_bind (py_get cand) (\<lambda>c.
                   if full \<notin> set c then append_cand full else py_return ())))"
    have d: "distinct (cand (snd (?step st)))"
      using Cons.prems
      by (auto simp: prog_defs py_get_def append_cand_def split: sum.splits)
    show ?thesis
    proof (cases "?step st")
      case (Pair r st1)
      with d have d1: "distinct (cand st1)" by simp
      show ?thesis
      proof (cases r)
        case (Inl e)
        with Pair True d1 show ?thesis by (simp add: py_bind_def)
      next
        case (Inr u)
        with Pair True Cons.IH [OF d1] show ?thesis by (simp add: py_bind_def)
      qed
    qed
  qed
qed

text \<open>
  C7 fails on the code. On a page whose two anchors carry the same \<^verbatim>\<open>href\<close>, the
  candidate list holds that URL twice and the file is downloaded twice: the loop over
  the anchors appends without the membership test the loop over the page source has.
\<close>

theorem direct_links_duplicate_candidates:
  "cand (snd (strategy_direct_links env_two_anchors ''7'' ''T'' ''/w/7'' st0))
     = [''http://site/a.pdf'', ''http://site/a.pdf''] \<and>
   fst (strategy_direct_links env_two_anchors ''7'' ''T'' ''/w/7'' st0)
     = Inr [''/w/7/a.pdf'', ''/w/7/a.pdf'']"
  by (simp add: strategy_direct_links_def direct_links_try_def anchor_href_def scan_page_source_def
      download_with_session_def download_try_def py_ignore_def py_get_def append_cand_def
      append_downloaded_def new_cand_def new_downloaded_def or_empty_def sel_a_def
      prog_defs env_two_anchors_def env0_def st0_def path_defs strip_def is_space_def
      looks_like_attachment_suffix ATTACH_EXTS_def endswith_def)

section \<open>The events a function appends\<close>

lemma grows_refl: "grows P st st"
  by (simp add: grows_def)

lemma grows_trans: "grows P a b \<Longrightarrow> grows P b c \<Longrightarrow> grows P a c"
  by (auto simp: grows_def)

lemma grows_same_hist: "hist st' = hist st \<Longrightarrow> grows P st st'"
  by (simp add: grows_def)

lemma addsI: "(\<And>st. grows P st (snd (m st))) \<Longrightarrow> adds P m"
  by (simp add: adds_def)

lemma addsD: "adds P m \<Longrightarrow> m st = (r, st') \<Longrightarrow> grows P st st'"
  by (auto simp: adds_def dest: spec [of _ st])

named_theorems adds_intros

lemma adds_return [adds_intros]: "adds P (py_return x)"
  by (simp add: adds_def py_return_def grows_refl)

lemma adds_raise [adds_intros]: "adds P (py_raise e)"
  by (simp add: adds_def py_raise_def grows_refl)

lemma adds_lift [adds_intros]: "adds P (py_lift r)"
  by (simp add: adds_def py_lift_def grows_refl)

lemma adds_get [adds_intros]: "adds P (py_get f)"
  by (simp add: adds_def py_get_def grows_refl)

lemma adds_say [adds_intros]: "adds P (say m)"
  by (simp add: adds_def say_def grows_def)

lemma adds_locals [adds_intros]:
  "adds P (append_downloaded p)" "adds P (append_uploaded p)" "adds P (append_cand p)"
  "adds P new_downloaded" "adds P new_uploaded" "adds P new_cand"
  by (simp_all add: adds_def grows_def append_downloaded_def append_uploaded_def append_cand_def
      new_downloaded_def new_uploaded_def new_cand_def)

lemma adds_call [adds_intros]: "P ev \<Longrightarrow> adds P (call env oracle ev)"
  by (simp add: adds_def call_def grows_def)

lemma adds_emit [adds_intros]: "P ev \<Longrightarrow> adds P (emit env ev)"
  by (simp add: emit_def adds_call)

lemma adds_sleep [adds_intros]: "P (EvSleep n) \<Longrightarrow> adds P (sleep env n)"
  by (simp add: adds_def sleep_def grows_def)

lemma adds_bind [adds_intros]:
  assumes "adds P m" and "\<And>x. adds P (f x)"
  shows "adds P (py_bind m f)"
proof (rule addsI)
  fix st
  obtain r st1 where m: "m st = (r, st1)" by (cases "m st")
  from addsD [OF assms(1) m] have g1: "grows P st st1" .
  show "grows P st (snd (py_bind m f st))"
  proof (cases r)
    case (Inl e)
    with m g1 show ?thesis by (simp add: py_bind_def)
  next
    case (Inr x)
    obtain r2 st2 where f: "f x st1 = (r2, st2)" by (cases "f x st1")
    from addsD [OF assms(2) f] have "grows P st1 st2" .
    with g1 have "grows P st st2" by (rule grows_trans)
    with m Inr f show ?thesis by (simp add: py_bind_def)
  qed
qed

lemma adds_try [adds_intros]:
  assumes "adds P m" and "\<And>e. adds P (h e)"
  shows "adds P (py_try m h)"
proof (rule addsI)
  fix st
  obtain r st1 where m: "m st = (r, st1)" by (cases "m st")
  from addsD [OF assms(1) m] have g1: "grows P st st1" .
  show "grows P st (snd (py_try m h st))"
  proof (cases r)
    case (Inr x)
    with m g1 show ?thesis by (simp add: py_try_def)
  next
    case (Inl e)
    obtain r2 st2 where f: "h e st1 = (r2, st2)" by (cases "h e st1")
    from addsD [OF assms(2) f] have "grows P st1 st2" .
    with g1 have "grows P st st2" by (rule grows_trans)
    with m Inl f show ?thesis by (simp add: py_try_def)
  qed
qed

lemma adds_ignore [adds_intros]: "adds P m \<Longrightarrow> adds P (py_ignore m)"
  unfolding py_ignore_def by (intro adds_intros)

lemma adds_if [adds_intros]: "adds P a \<Longrightarrow> adds P b \<Longrightarrow> adds P (if c then a else b)"
  by simp

lemma adds_case_option [adds_intros]:
  "adds P a \<Longrightarrow> (\<And>y. adds P (b y)) \<Longrightarrow> adds P (case x of None \<Rightarrow> a | Some y \<Rightarrow> b y)"
  by (cases x) simp_all

lemma adds_case_exn [adds_intros]:
  "(\<And>s. adds P (a s)) \<Longrightarrow> (\<And>s. adds P (b s)) \<Longrightarrow>
   adds P (case e of UnexpectedAlertPresentException s \<Rightarrow> a s | Exception s \<Rightarrow> b s)"
  by (cases e) simp_all

lemma adds_mono: "adds P m \<Longrightarrow> (\<And>e. P e \<Longrightarrow> Q e) \<Longrightarrow> adds Q m"
  unfolding adds_def grows_def by (metis (mono_tags, lifting) list_all_iff)

lemma adds_raise_for_status [adds_intros]: "adds P (raise_for_status env s)"
  unfolding raise_for_status_def by (intro adds_intros)

lemma kf [simp]:
  "keeps_files (EvExists a)" "keeps_files (EvMkdir a)" "keeps_files (EvCopy a b)"
  "keeps_files (EvZipExtract a b)" "keeps_files (EvRarExtract a b)" "keeps_files (EvWalk a)"
  "keeps_files (EvOpenRead a)" "keeps_files (EvPost a b)" "keeps_files (EvHttpGet a)"
  "keeps_files (EvWriteBody a)" "keeps_files (EvLogInfo l)" "keeps_files (EvLogWarning l)"
  "keeps_files (EvLogError l)" "keeps_files (EvBuildDriver a)" "keeps_files (EvGet a)"
  "keeps_files EvQuit" "keeps_files EvGetCookies" "keeps_files (EvFindElements a)"
  "keeps_files (EvFindElementById a)" "keeps_files (EvGetAttribute n a)" "keeps_files (EvText n)"
  "keeps_files (EvExecuteScript a n)" "keeps_files EvSwitchDefault" "keeps_files (EvSwitchFrame n)"
  "keeps_files (EvSwitchWindow a)" "keeps_files EvSwitchAlert" "keeps_files EvAlertText"
  "keeps_files EvAlertDismiss" "keeps_files EvWindowHandles" "keeps_files EvCurrentUrl"
  "keeps_files EvCloseWindow" "keeps_files EvPageSource" "keeps_files EvTitle"
  "keeps_files EvPerfLogs" "keeps_files (EvSleep n)"
  by (simp_all add: keeps_files_def is_rmtree_def)




lemmas ev_defs = download_ev_def attr_ev_def click_ev_def probe_a_ev_def probe_b_ev_def
  probe_c_ev_def


lemma download_adds: "adds download_ev (download_with_session env u d ov)"
  unfolding download_with_session_def download_try_def ensure_dir_def
  by (intro adds_intros) (simp_all add: ev_defs)

lemma download_and_keep_adds: "adds download_ev (download_and_keep env u d)"
  unfolding download_and_keep_def
  by (intro adds_intros download_adds)

lemma download_in_probes:
  "adds probe_a_ev (download_and_keep env u d)"
  "adds probe_b_ev (download_and_keep env u d)"
  "adds probe_c_ev (download_and_keep env u d)"
  by (rule adds_mono [OF download_and_keep_adds], simp add: ev_defs)+



lemma new_window_found_adds: "adds probe_a_ev (new_window_found env d base new)"
  unfolding new_window_found_def
  by (intro adds_intros download_in_probes) (simp_all add: ev_defs)

lemma await_window_grows: "grows probe_a_ev st (snd (await_window env d base t0 st))"
proof (induction env d base t0 st rule: await_window.induct)
  case (1 env d base t0 st)
  show ?case
  proof (cases "clock st - t0 < CLICK_NEW_WINDOW_WAIT")
    case False
    then show ?thesis by (simp add: grows_refl)
  next
    case True
    obtain r st1 where c: "call env (ans_strs env) EvWindowHandles st = (r, st1)"
      by (cases "call env (ans_strs env) EvWindowHandles st")
    have g1: "grows probe_a_ev st st1"
      by (rule addsD [OF adds_call c]) (simp add: ev_defs)
    show ?thesis
    proof (cases r)
      case (Inl e)
      with True c g1 show ?thesis by simp
    next
      case (Inr now)
      show ?thesis
      proof (cases "filter (\<lambda>h. h \<notin> set base) now = []")
        case False
        obtain r2 st2 where n: "new_window_found env d base (filter (\<lambda>h. h \<notin> set base) now) st1 = (r2, st2)"
          by (cases "new_window_found env d base (filter (\<lambda>h. h \<notin> set base) now) st1")
        from addsD [OF new_window_found_adds n] g1 have "grows probe_a_ev st st2"
          by (blast intro: grows_trans)
        with True c Inr False n show ?thesis by simp
      next
        case e: True
        have s: "grows probe_a_ev st1 (snd (sleep env 300 st1))"
          by (rule addsD [OF adds_sleep, of _ _ _ _ "fst (sleep env 300 st1)"]) (simp_all add: ev_defs)
        from "1.IH" [OF True c [symmetric] Inr] e
        have "grows probe_a_ev (snd (sleep env 300 st1))
                (snd (await_window env d base t0 (snd (sleep env 300 st1))))"
          by simp
        with g1 s have "grows probe_a_ev st (snd (await_window env d base t0 (snd (sleep env 300 st1))))"
          by (blast intro: grows_trans)
        with True c Inr e show ?thesis by simp
      qed
    qed
  qed
qed

lemma probe_new_window_adds: "adds probe_a_ev (probe_new_window env d base)"
  unfolding probe_new_window_def
proof (intro adds_intros)
  show "adds probe_a_ev (\<lambda>st. await_window env d base (clock st) st)"
    by (rule addsI) (rule await_window_grows)
qed

lemma extract_urls_adds: "adds probe_b_ev (extract_urls_from_perf_logs env)"
  unfolding extract_urls_from_perf_logs_def
  by (intro adds_intros) (simp_all add: ev_defs)

lemma pick_perf_url_adds: "adds probe_b_ev (pick_perf_url env us)"
proof (induction us)
  case Nil
  show ?case by (simp add: adds_intros)
next
  case (Cons u us)
  show ?case unfolding pick_perf_url.simps
    by (intro adds_intros Cons.IH) (simp_all add: ev_defs)
qed

lemma poll_perf_logs_adds: "adds probe_b_ev (poll_perf_logs env n)"
proof (induction n)
  case 0
  show ?case by (simp add: adds_intros)
next
  case (Suc n)
  show ?case unfolding poll_perf_logs.simps
    by (intro adds_intros extract_urls_adds pick_perf_url_adds Suc.IH) (simp_all add: ev_defs)
qed

lemma probe_perf_logs_adds: "adds probe_b_ev (probe_perf_logs env d)"
  unfolding probe_perf_logs_def
  by (intro adds_intros poll_perf_logs_adds download_in_probes)

lemma inspect_container_adds: "adds probe_c_ev (inspect_container env d s)"
  unfolding inspect_container_def
  by (intro adds_intros download_in_probes) (simp_all add: ev_defs)

lemma probe_dom_container_adds: "adds probe_c_ev (probe_dom_container env d s)"
  unfolding probe_dom_container_def
  by (intro adds_intros inspect_container_adds)

section \<open>Resolving a candidate\<close>





lemma download_total:
  "\<exists>r st'. download_with_session env u d ov st = (Inr r, st')"
  unfolding download_with_session_def download_try_def prog_defs
  by (auto split: sum.splits prod.splits option.splits if_splits)





section \<open>Bounds on the polling of the probes\<close>

lemma cost_append [simp]: "cost w (a @ b) = cost w a + cost w b"
  by (simp add: cost_def)

lemma cost_simps [simp]: "cost w [] = 0" "cost w (e # es) = w e + cost w es"
  by (simp_all add: cost_def)

lemma cost_zero: "list_all P evs \<Longrightarrow> (\<And>e. P e \<Longrightarrow> w e = 0) \<Longrightarrow> cost w evs = 0"
  by (induction evs) auto

lemma costsI:
  "(\<And>st. \<exists>evs. hist (snd (m st)) = hist st @ evs \<and> cost w evs \<le> b) \<Longrightarrow> costs w b m"
  by (simp add: costs_def)

lemma costsD:
  "costs w b m \<Longrightarrow> m st = (r, st') \<Longrightarrow> \<exists>evs. hist st' = hist st @ evs \<and> cost w evs \<le> b"
  by (auto simp: costs_def dest: spec [of _ st])

lemma costs_weaken: "costs w b m \<Longrightarrow> b \<le> c \<Longrightarrow> costs w c m"
  unfolding costs_def by (meson le_trans)

lemma costs_of_adds:
  assumes "adds P m" and "\<And>e. P e \<Longrightarrow> w e = 0"
  shows "costs w 0 m"
proof (rule costsI)
  fix st
  from assms(1) obtain evs where "hist (snd (m st)) = hist st @ evs" "list_all P evs"
    by (auto simp: adds_def grows_def)
  with cost_zero [of P evs w] assms(2) show "\<exists>evs. hist (snd (m st)) = hist st @ evs \<and> cost w evs \<le> 0"
    by auto
qed

lemma costs_return: "costs w 0 (py_return x)"
  by (simp add: costs_def py_return_def)

lemma costs_say: "costs w 0 (say m)"
  by (simp add: costs_def say_def)

lemma costs_call: "costs w (w ev) (call env oracle ev)"
  by (simp add: costs_def call_def)

lemma costs_sleep: "costs w (w (EvSleep n)) (sleep env n)"
  by (simp add: costs_def sleep_def)

lemma costs_bind:
  assumes "costs w a m" and "\<And>x. costs w b (f x)"
  shows "costs w (a + b) (py_bind m f)"
proof (rule costsI)
  fix st
  obtain r st1 where m: "m st = (r, st1)" by (cases "m st")
  from costsD [OF assms(1) m] obtain e1 where e1: "hist st1 = hist st @ e1" "cost w e1 \<le> a"
    by blast
  show "\<exists>evs. hist (snd (py_bind m f st)) = hist st @ evs \<and> cost w evs \<le> a + b"
  proof (cases r)
    case (Inl e)
    with m e1 show ?thesis by (auto simp: py_bind_def)
  next
    case (Inr x)
    obtain r2 st2 where f: "f x st1 = (r2, st2)" by (cases "f x st1")
    from costsD [OF assms(2) f] obtain e2 where "hist st2 = hist st1 @ e2" "cost w e2 \<le> b"
      by blast
    with e1 have "hist st2 = hist st @ (e1 @ e2) \<and> cost w (e1 @ e2) \<le> a + b" by simp
    with m Inr f show ?thesis by (auto simp: py_bind_def)
  qed
qed

lemma costs_try:
  assumes "costs w a m" and "\<And>e. costs w b (h e)"
  shows "costs w (a + b) (py_try m h)"
proof (rule costsI)
  fix st
  obtain r st1 where m: "m st = (r, st1)" by (cases "m st")
  from costsD [OF assms(1) m] obtain e1 where e1: "hist st1 = hist st @ e1" "cost w e1 \<le> a"
    by blast
  show "\<exists>evs. hist (snd (py_try m h st)) = hist st @ evs \<and> cost w evs \<le> a + b"
  proof (cases r)
    case (Inr x)
    with m e1 show ?thesis by (auto simp: py_try_def)
  next
    case (Inl e)
    obtain r2 st2 where f: "h e st1 = (r2, st2)" by (cases "h e st1")
    from costsD [OF assms(2) f] obtain e2 where "hist st2 = hist st1 @ e2" "cost w e2 \<le> b"
      by blast
    with e1 have "hist st2 = hist st @ (e1 @ e2) \<and> cost w (e1 @ e2) \<le> a + b" by simp
    with m Inl f show ?thesis by (auto simp: py_try_def)
  qed
qed

lemma costs_ignore: "costs w a m \<Longrightarrow> costs w a (py_ignore m)"
  unfolding py_ignore_def
  using costs_try [OF costs_bind [OF _ costs_return] costs_return, of w a m] by simp

lemmas w_defs = w_sleep_def w_window_poll_def w_perf_poll_def w_lookup_def

lemma download_weightless:
  "download_ev e \<Longrightarrow> w_sleep e = 0" "download_ev e \<Longrightarrow> w_window_poll e = 0"
  "download_ev e \<Longrightarrow> w_perf_poll e = 0" "download_ev e \<Longrightarrow> w_lookup e = 0"
  by (cases e; simp add: ev_defs w_defs)+

lemma download_and_keep_free:
  "costs w_sleep 0 (download_and_keep env u d)"
  "costs w_window_poll 0 (download_and_keep env u d)"
  "costs w_perf_poll 0 (download_and_keep env u d)"
  "costs w_lookup 0 (download_and_keep env u d)"
  by (rule costs_of_adds [OF download_and_keep_adds], simp add: download_weightless)+


lemma costs_raise: "costs w 0 (py_raise e)"
  by (simp add: costs_def py_raise_def)

lemma costs_lift: "costs w 0 (py_lift r)"
  by (simp add: costs_def py_lift_def)

lemma costs_if:
  "costs w a x \<Longrightarrow> costs w b y \<Longrightarrow> costs w (a + b) (if c then x else y)"
  by (auto intro: costs_weaken)

lemma costs_case_option:
  "costs w a x \<Longrightarrow> (\<And>y. costs w b (f y)) \<Longrightarrow>
   costs w (a + b) (case v of None \<Rightarrow> x | Some y \<Rightarrow> f y)"
proof (cases v)
  case None
  assume "costs w a x"
  then have "costs w (a + b) x" by (rule costs_weaken) simp
  with None show ?thesis by simp
next
  case (Some y)
  assume "\<And>y. costs w b (f y)"
  then have "costs w (a + b) (f y)" by (rule costs_weaken) simp
  with Some show ?thesis by simp
qed

lemmas costs_rules = costs_bind costs_try costs_ignore costs_if costs_case_option costs_return
  costs_raise costs_lift costs_say costs_call costs_sleep

lemma new_window_found_sleeps: "costs w_sleep 600 (new_window_found env d base new)"
  unfolding new_window_found_def
  apply (rule costs_weaken)
   apply (rule costs_rules download_and_keep_free)+
  apply (simp add: w_defs)
  done

lemma new_window_found_polls: "costs w_window_poll 0 (new_window_found env d base new)"
  unfolding new_window_found_def
  apply (rule costs_weaken)
   apply (rule costs_rules download_and_keep_free)+
  apply (simp add: w_defs)
  done

lemma poll_first: "(c::nat) < t0 + 8000 \<Longrightarrow> 1 \<le> (t0 + 8000 - c + 299) div 300"
proof -
  assume "c < t0 + 8000"
  then have "300 \<le> t0 + 8000 - c + 299" by simp
  then have "300 div 300 \<le> (t0 + 8000 - c + 299) div 300" by (rule div_le_mono)
  then show ?thesis by simp
qed

lemma div_300_step: "((x::nat) + 300) div 300 = x div 300 + 1"
  by simp

lemma poll_step:
  fixes c c2 t0 :: nat
  assumes "c + 300 \<le> c2" and "c < t0 + 8000"
  shows "(t0 + 8000 - c2 + 299) div 300 + 1 \<le> (t0 + 8000 - c + 299) div 300"
proof -
  have "(t0 + 8000 - c2 + 299) + 300 \<le> t0 + 8000 - c + 299 \<or> t0 + 8000 - c2 = 0"
    using assms by linarith
  then show ?thesis
  proof
    assume "(t0 + 8000 - c2 + 299) + 300 \<le> t0 + 8000 - c + 299"
    then have "((t0 + 8000 - c2 + 299) + 300) div 300 \<le> (t0 + 8000 - c + 299) div 300"
      by (rule div_le_mono)
    then show ?thesis by (simp only: div_300_step)
  next
    assume z: "t0 + 8000 - c2 = 0"
    have "(299::nat) div 300 = 0" by simp
    with poll_first [OF assms(2)] z show ?thesis by (simp only: add_0 add_0_left)
  qed
qed


lemma await_window_bounded:
  "\<exists>evs. hist (snd (await_window env d base t0 st)) = hist st @ evs \<and>
     cost w_window_poll evs \<le> (t0 + CLICK_NEW_WINDOW_WAIT - clock st + 299) div 300 \<and>
     cost w_sleep evs \<le> 300 * cost w_window_poll evs + 300"
proof (induction env d base t0 st rule: await_window.induct)
  case (1 env d base t0 st)
  show ?case
  proof (cases "clock st - t0 < CLICK_NEW_WINDOW_WAIT")
    case False
    then show ?thesis by simp
  next
    case True
    obtain r st1 where c: "call env (ans_strs env) EvWindowHandles st = (r, st1)"
      by (cases "call env (ans_strs env) EvWindowHandles st")
    then have h1: "hist st1 = hist st @ [EvWindowHandles]" and c1: "clock st \<le> clock st1"
      by (auto simp: call_def)
    from True have lt: "clock st < t0 + 8000"
      by (simp add: CLICK_NEW_WINDOW_WAIT_def)
    have pos: "1 \<le> (t0 + CLICK_NEW_WINDOW_WAIT - clock st + 299) div 300"
      using poll_first [OF lt] by (simp only: CLICK_NEW_WINDOW_WAIT_def)
    show ?thesis
    proof (cases r)
      case (Inl e)
      with True c h1 pos show ?thesis by (simp add: w_defs)
    next
      case (Inr now)
      show ?thesis
      proof (cases "filter (\<lambda>h. h \<notin> set base) now = []")
        case False
        obtain r2 st2 where n: "new_window_found env d base (filter (\<lambda>h. h \<notin> set base) now) st1 = (r2, st2)"
          by (cases "new_window_found env d base (filter (\<lambda>h. h \<notin> set base) now) st1")
        from costsD [OF new_window_found_sleeps n] costsD [OF new_window_found_polls n]
        obtain e2 where e2: "hist st2 = hist st1 @ e2" "cost w_sleep e2 \<le> 600" "cost w_window_poll e2 = 0"
          by auto
        have "hist st2 = hist st @ (EvWindowHandles # e2)" using h1 e2 by simp
        moreover have "cost w_window_poll (EvWindowHandles # e2) = 1" using e2 by (simp add: w_defs)
        moreover have "cost w_sleep (EvWindowHandles # e2) \<le> 600" using e2 by (simp add: w_defs)
        ultimately have "\<exists>evs. hist st2 = hist st @ evs \<and>
            cost w_window_poll evs \<le> (t0 + CLICK_NEW_WINDOW_WAIT - clock st + 299) div 300 \<and>
            cost w_sleep evs \<le> 300 * cost w_window_poll evs + 300"
          using pos by (intro exI [of _ "EvWindowHandles # e2"]) simp
        with True c Inr False n show ?thesis by simp
      next
        case e: True
        let ?s2 = "snd (sleep env 300 st1)"
        have h2: "hist ?s2 = hist st @ [EvWindowHandles, EvSleep 300]"
          and c2: "clock st + 300 \<le> clock ?s2"
          using h1 c1 by (simp_all add: sleep_def)
        from "1.IH" [OF True c [symmetric] Inr] e
        obtain e3 where e3: "hist (snd (await_window env d base t0 ?s2)) = hist ?s2 @ e3"
          "cost w_window_poll e3 \<le> (t0 + CLICK_NEW_WINDOW_WAIT - clock ?s2 + 299) div 300"
          "cost w_sleep e3 \<le> 300 * cost w_window_poll e3 + 300"
          by auto
        let ?evs = "EvWindowHandles # EvSleep 300 # e3"
        have a: "hist (snd (await_window env d base t0 ?s2)) = hist st @ ?evs"
          using e3 h2 by simp
        have "(t0 + CLICK_NEW_WINDOW_WAIT - clock ?s2 + 299) div 300 + 1
                \<le> (t0 + CLICK_NEW_WINDOW_WAIT - clock st + 299) div 300"
          using poll_step [OF c2 lt] by (simp only: CLICK_NEW_WINDOW_WAIT_def)
        with e3 have b: "cost w_window_poll ?evs \<le> (t0 + CLICK_NEW_WINDOW_WAIT - clock st + 299) div 300"
          by (simp add: w_defs)
        have c': "cost w_sleep ?evs \<le> 300 * cost w_window_poll ?evs + 300"
          using e3 by (simp add: w_defs)
        from a b c' have "\<exists>evs. hist (snd (await_window env d base t0 ?s2)) = hist st @ evs \<and>
            cost w_window_poll evs \<le> (t0 + CLICK_NEW_WINDOW_WAIT - clock st + 299) div 300 \<and>
            cost w_sleep evs \<le> 300 * cost w_window_poll evs + 300"
          by blast
        with True c Inr e show ?thesis by simp
      qed
    qed
  qed
qed

lemma probe_new_window_bounded:
  "\<exists>evs. hist (snd (probe_new_window env d base st)) = hist st @ evs \<and>
     cost w_window_poll evs \<le> 27 \<and> cost w_sleep evs \<le> 8400"
proof -
  from await_window_bounded [of env d base "clock st" st]
  obtain evs where e: "hist (snd (await_window env d base (clock st) st)) = hist st @ evs"
    "cost w_window_poll evs \<le> 27" "cost w_sleep evs \<le> 300 * cost w_window_poll evs + 300"
    by (auto simp: CLICK_NEW_WINDOW_WAIT_def)
  then have "cost w_sleep evs \<le> 8400" by simp
  with e have "hist (snd (probe_new_window env d base st)) = hist st @ evs \<and>
     cost w_window_poll evs \<le> 27 \<and> cost w_sleep evs \<le> 8400"
    by (cases "await_window env d base (clock st) st"; cases "fst (await_window env d base (clock st) st)")
       (auto simp: probe_new_window_def py_try_def py_bind_def say_def py_return_def)
  then show ?thesis by blast
qed


lemma pick_perf_url_reads_url: "adds (\<lambda>e. e = EvCurrentUrl) (pick_perf_url env us)"
proof (induction us)
  case Nil
  show ?case by (simp add: adds_intros)
next
  case (Cons u us)
  show ?case unfolding pick_perf_url.simps
    by (intro adds_intros Cons.IH) simp_all
qed

lemma pick_perf_url_free:
  "costs w_perf_poll 0 (pick_perf_url env us)" "costs w_sleep 0 (pick_perf_url env us)"
  by (rule costs_of_adds [OF pick_perf_url_reads_url], simp add: w_defs)+

lemma extract_urls_costs:
  "costs w_perf_poll 1 (extract_urls_from_perf_logs env)"
  "costs w_sleep 0 (extract_urls_from_perf_logs env)"
  unfolding extract_urls_from_perf_logs_def
  by (rule costs_weaken, (rule costs_rules)+, simp add: w_defs)+

lemma poll_perf_logs_polls: "costs w_perf_poll n (poll_perf_logs env n)"
proof (induction n)
  case 0
  show ?case by (simp add: costs_return)
next
  case (Suc n)
  show ?case unfolding poll_perf_logs.simps
    apply (rule costs_weaken)
     apply (rule costs_bind [OF extract_urls_costs(1)])
     apply (rule costs_bind [OF pick_perf_url_free(1)])
     apply (rule costs_case_option [OF costs_bind [OF costs_sleep Suc.IH] costs_return])
    apply (simp add: w_defs)
    done
qed

lemma poll_perf_logs_sleeps: "costs w_sleep (PERF_POLL_SLEEP * n) (poll_perf_logs env n)"
proof (induction n)
  case 0
  show ?case by (simp add: costs_return)
next
  case (Suc n)
  show ?case unfolding poll_perf_logs.simps
    apply (rule costs_weaken)
     apply (rule costs_bind [OF extract_urls_costs(2)])
     apply (rule costs_bind [OF pick_perf_url_free(2)])
     apply (rule costs_case_option [OF costs_bind [OF costs_sleep Suc.IH] costs_return])
    apply (simp add: w_defs)
    done
qed

lemma probe_perf_logs_polls: "costs w_perf_poll 6 (probe_perf_logs env d)"
  unfolding probe_perf_logs_def
  apply (rule costs_weaken)
   apply (rule costs_bind [OF poll_perf_logs_polls])
   apply (rule costs_case_option [OF costs_return costs_bind [OF costs_say download_and_keep_free(3)]])
  apply (simp add: PERF_POLL_ITER_def)
  done

lemma probe_perf_logs_sleeps: "costs w_sleep 4800 (probe_perf_logs env d)"
  unfolding probe_perf_logs_def
  apply (rule costs_weaken)
   apply (rule costs_bind [OF poll_perf_logs_sleeps])
   apply (rule costs_case_option [OF costs_return costs_bind [OF costs_say download_and_keep_free(1)]])
  apply (simp add: PERF_POLL_ITER_def PERF_POLL_SLEEP_def)
  done

lemma read_container_free:
  "costs w_lookup 0
     (py_bind (call env (ans_ostr env) (EvGetAttribute elc ''innerHTML'')) (\<lambda>inner_html.
      case re_href_search env (or_empty inner_html) of
        None \<Rightarrow> py_return False
      | Some c \<Rightarrow>
          py_bind (if \<not> startswith c ''http''
                   then py_bind (call env (ans_str env) EvCurrentUrl) (\<lambda>cur.
                        py_lift (urljoin env cur c))
                   else py_return c) (\<lambda>candidate.
          py_bind (say (MsgA_Container s candidate)) (\<lambda>_.
          download_and_keep env candidate d))))"
  "costs w_sleep 0
     (py_bind (call env (ans_ostr env) (EvGetAttribute elc ''innerHTML'')) (\<lambda>inner_html.
      case re_href_search env (or_empty inner_html) of
        None \<Rightarrow> py_return False
      | Some c \<Rightarrow>
          py_bind (if \<not> startswith c ''http''
                   then py_bind (call env (ans_str env) EvCurrentUrl) (\<lambda>cur.
                        py_lift (urljoin env cur c))
                   else py_return c) (\<lambda>candidate.
          py_bind (say (MsgA_Container s candidate)) (\<lambda>_.
          download_and_keep env candidate d))))"
  by (rule costs_weaken, (rule costs_rules download_and_keep_free)+, simp add: w_defs)+

lemma inspect_container_costs:
  "costs w_lookup 1 (inspect_container env d s)"
  "costs w_sleep 0 (inspect_container env d s)"
  unfolding inspect_container_def
  by (rule costs_weaken, rule costs_bind [OF costs_call], rule read_container_free,
      simp add: w_defs)+

lemma probe_dom_container_costs:
  "costs w_lookup 1 (probe_dom_container env d s)"
  "costs w_sleep 0 (probe_dom_container env d s)"
  unfolding probe_dom_container_def
  by (rule costs_weaken, (rule costs_rules inspect_container_costs)+, simp)+

section \<open>The three probes\<close>

lemma download_keeps_downloaded:
  "download_with_session env u d ov st = (r, st') \<Longrightarrow> downloaded st' = downloaded st"
  unfolding download_with_session_def download_try_def prog_defs
  by (auto split: sum.splits prod.splits option.splits if_splits)

lemma download_and_keep_got:
  assumes "download_and_keep env u d st = (r, st')"
  shows "(r = Inr True \<longrightarrow> (\<exists>p. downloaded st' = downloaded st @ [p])) \<and>
         (r \<noteq> Inr True \<longrightarrow> r = Inr False \<and> downloaded st' = downloaded st)"
proof -
  obtain x st1 where d: "download_with_session env u d None st = (Inr x, st1)"
    using download_total by blast
  from download_keeps_downloaded [OF d] have k: "downloaded st1 = downloaded st" .
  from assms d k show ?thesis
    by (cases x) (auto simp: download_and_keep_def py_bind_def py_return_def append_downloaded_def)
qed

lemma new_window_found_got:
  assumes "new_window_found env d base new st = (r, st')"
  shows "(r = Inr True \<longrightarrow> (\<exists>p. downloaded st' = downloaded st @ [p])) \<and>
         (r \<noteq> Inr True \<longrightarrow> downloaded st' = downloaded st)"
  using assms unfolding new_window_found_def
  by (auto simp: py_bind_def call_def sleep_def say_def py_ignore_def py_try_def py_return_def
      py_raise_def split: sum.splits prod.splits if_splits dest!: download_and_keep_got)


lemma await_window_got:
  "(fst (await_window env d base t0 st) = Inr True \<longrightarrow>
      (\<exists>p. downloaded (snd (await_window env d base t0 st)) = downloaded st @ [p])) \<and>
   (fst (await_window env d base t0 st) \<noteq> Inr True \<longrightarrow>
      downloaded (snd (await_window env d base t0 st)) = downloaded st)"
proof (induction env d base t0 st rule: await_window.induct)
  case (1 env d base t0 st)
  show ?case
  proof (cases "clock st - t0 < CLICK_NEW_WINDOW_WAIT")
    case False
    then show ?thesis by simp
  next
    case True
    obtain r st1 where c: "call env (ans_strs env) EvWindowHandles st = (r, st1)"
      by (cases "call env (ans_strs env) EvWindowHandles st")
    then have d1: "downloaded st1 = downloaded st" by (auto simp: call_def)
    show ?thesis
    proof (cases r)
      case (Inl e)
      with True c d1 show ?thesis by simp
    next
      case (Inr now)
      show ?thesis
      proof (cases "filter (\<lambda>h. h \<notin> set base) now = []")
        case False
        obtain r2 st2 where n: "new_window_found env d base (filter (\<lambda>h. h \<notin> set base) now) st1 = (r2, st2)"
          by (cases "new_window_found env d base (filter (\<lambda>h. h \<notin> set base) now) st1")
        from new_window_found_got [OF n] d1 True c Inr False n show ?thesis by simp
      next
        case e: True
        have d2: "downloaded (snd (sleep env 300 st1)) = downloaded st" using d1 by (simp add: sleep_def)
        from "1.IH" [OF True c [symmetric] Inr] e d2 True c Inr show ?thesis by simp
      qed
    qed
  qed
qed

lemma probe_new_window_got:
  "\<exists>got. fst (probe_new_window env d base st) = Inr got \<and>
     (got \<longrightarrow> (\<exists>p. downloaded (snd (probe_new_window env d base st)) = downloaded st @ [p])) \<and>
     (\<not> got \<longrightarrow> downloaded (snd (probe_new_window env d base st)) = downloaded st)"
proof -
  obtain r st1 where a: "await_window env d base (clock st) st = (r, st1)"
    by (cases "await_window env d base (clock st) st")
  from await_window_got [of env d base "clock st" st] a
  have g: "(r = Inr True \<longrightarrow> (\<exists>p. downloaded st1 = downloaded st @ [p]))"
    "(r \<noteq> Inr True \<longrightarrow> downloaded st1 = downloaded st)"
    by (simp_all del: await_window.simps)
  show ?thesis
  proof (cases r)
    case (Inl e)
    with a g show ?thesis
      by (intro exI [of _ False])
         (simp add: probe_new_window_def py_try_def py_bind_def say_def py_return_def
          del: await_window.simps)
  next
    case (Inr got)
    with a g show ?thesis
      by (intro exI [of _ got])
         (simp add: probe_new_window_def py_try_def del: await_window.simps)
  qed
qed

lemma probes_weightless:
  "probe_a_ev e \<Longrightarrow> w_perf_poll e = 0 \<and> w_lookup e = 0"
  "probe_b_ev e \<Longrightarrow> w_window_poll e = 0 \<and> w_lookup e = 0"
  "probe_c_ev e \<Longrightarrow> w_window_poll e = 0 \<and> w_perf_poll e = 0"
  by (cases e; simp add: ev_defs w_defs)+

lemma new_events_cost:
  assumes "costs w b m"
  shows "cost w (new_events st (snd (m st))) \<le> b"
proof -
  from assms obtain evs where "hist (snd (m st)) = hist st @ evs" "cost w evs \<le> b"
    by (auto simp: costs_def)
  then show ?thesis by (simp add: new_events_def)
qed

lemma new_events_free:
  assumes "adds P m" and "\<And>e. P e \<Longrightarrow> w e = 0"
  shows "cost w (new_events st (snd (m st))) = 0"
  using new_events_cost [OF costs_of_adds [OF assms], where st = st] by simp


lemma try_total:
  assumes "\<And>e st. \<exists>x st'. h e st = (Inr x, st')"
  shows "\<exists>x st'. py_try m h st = (Inr x, st')"
proof (cases "m st")
  case (Pair r st1)
  show ?thesis
  proof (cases r)
    case (Inl e)
    with Pair assms [of e st1] show ?thesis by (simp add: py_try_def)
  next
    case (Inr x)
    with Pair show ?thesis by (simp add: py_try_def)
  qed
qed

lemma ignore_total: "\<exists>st'. py_ignore m st = (Inr (), st')"
  unfolding py_ignore_def using try_total [of "\<lambda>_. py_return ()"]
  by (simp add: py_return_def)

lemma click_candidate_total: "\<exists>st'. click_candidate env el st = (Inr (), st')"
proof -
  have "\<exists>x st'. (case e of
          UnexpectedAlertPresentException _ \<Rightarrow>
            py_ignore
              (py_bind (call env (ans_unit env) EvSwitchAlert) (\<lambda>_.
               py_bind (call env (ans_str env) EvAlertText) (\<lambda>msg.
               py_bind (say (MsgA_Alert msg)) (\<lambda>_.
               call env (ans_unit env) EvAlertDismiss))))
        | Exception _ \<Rightarrow> say (MsgA_ClickFailed (str_of_exn e))) s = (Inr x, st')" for e s
    by (cases e) (use ignore_total in \<open>auto simp: say_def\<close>)
  from try_total [OF this] show ?thesis
    unfolding click_candidate_def by simp
qed

lemma return_total: "\<exists>x st'. py_return v st = (Inr x, st')"
  by (simp add: py_return_def)

lemma probe_dom_container_total:
  "\<exists>r st'. probe_dom_container env d s st = (Inr r, st')"
proof (cases s)
  case None
  then show ?thesis
    using return_total by (simp add: probe_dom_container_def)
next
  case (Some x)
  have t: "\<exists>r st'. py_try (inspect_container env d x) (\<lambda>_. py_return False) st = (Inr r, st')"
    by (rule try_total) (rule return_total)
  show ?thesis
  proof (cases "x = []")
    case True
    with Some show ?thesis
      using return_total by (simp add: probe_dom_container_def)
  next
    case False
    with Some t show ?thesis by (simp add: probe_dom_container_def)
  qed
qed

text \<open>
  C2. After the click, with \<open>s0\<close> the state after the click and \<open>sa\<close>, \<open>sb\<close>, \<open>sc\<close> the
  states after probe A (new window), probe B (network trace) and probe C (DOM
  container) run in this order:
  \<^item> probe A never raises; when it has downloaded a file, the candidate ends in the state
    \<open>sa\<close> it left, with that one file appended to \<^verbatim>\<open>downloaded\<close>, so probes B and C do
    not run, whatever the trace would have yielded;
  \<^item> when probe A found nothing and probe B has downloaded a file, the candidate ends in
    \<open>sb\<close>, so probe C does not run; when both found nothing, probe C runs from \<open>sb\<close> and
    the candidate ends after the pause that follows it;
  \<^item> probe A polls the window handles at most 27 times and sleeps at most 8.4 seconds,
    probe B polls the performance log at most 6 times and sleeps at most 4.8 seconds,
    probe C looks the container up at most once and does not sleep; no probe makes a
    call that marks another probe.
\<close>

theorem probes_run_in_fixed_order:
  fixes env :: env and work_dir :: string and base_handles :: "string list" and el :: elem
    and onclick :: string and st :: state
  defines "s0 \<equiv> snd (click_candidate env el st)"
    and "sa \<equiv> snd (probe_new_window env work_dir base_handles (snd (click_candidate env el st)))"
    and "sb \<equiv> snd (probe_perf_logs env work_dir
                  (snd (probe_new_window env work_dir base_handles (snd (click_candidate env el st)))))"
    and "sc \<equiv> snd (probe_dom_container env work_dir (re_validate_code env onclick)
                  (snd (probe_perf_logs env work_dir
                    (snd (probe_new_window env work_dir base_handles
                      (snd (click_candidate env el st)))))))"
  shows
    "(\<exists>got. fst (probe_new_window env work_dir base_handles s0) = Inr got) \<and>
     (fst (probe_new_window env work_dir base_handles s0) = Inr True \<longrightarrow>
        resolve_by_click env work_dir base_handles el onclick st = (Inr (), sa) \<and>
        (\<exists>p. downloaded sa = downloaded s0 @ [p])) \<and>
     (fst (probe_new_window env work_dir base_handles s0) = Inr False \<longrightarrow>
        (fst (probe_perf_logs env work_dir sa) = Inr True \<longrightarrow>
           resolve_by_click env work_dir base_handles el onclick st = (Inr (), sb)) \<and>
        (fst (probe_perf_logs env work_dir sa) = Inr False \<longrightarrow>
           resolve_by_click env work_dir base_handles el onclick st
             = (Inr (), snd (sleep env 300 sc)))) \<and>
     cost w_window_poll (new_events s0 sa) \<le> 27 \<and> cost w_sleep (new_events s0 sa) \<le> 8400 \<and>
     cost w_perf_poll (new_events s0 sa) = 0 \<and> cost w_lookup (new_events s0 sa) = 0 \<and>
     cost w_perf_poll (new_events sa sb) \<le> 6 \<and> cost w_sleep (new_events sa sb) \<le> 4800 \<and>
     cost w_window_poll (new_events sa sb) = 0 \<and> cost w_lookup (new_events sa sb) = 0 \<and>
     cost w_lookup (new_events sb sc) \<le> 1 \<and> cost w_sleep (new_events sb sc) = 0 \<and>
     cost w_window_poll (new_events sb sc) = 0 \<and> cost w_perf_poll (new_events sb sc) = 0"
proof -
  have c: "click_candidate env el st = (Inr (), s0)"
    using click_candidate_total [of env el st] by (auto simp: s0_def)
  let ?A = "probe_new_window env work_dir base_handles s0"
  let ?B = "probe_perf_logs env work_dir sa"
  let ?C = "probe_dom_container env work_dir (re_validate_code env onclick) sb"
  have sa: "sa = snd ?A" and sb: "sb = snd ?B" and sc: "sc = snd ?C"
    by (simp_all add: s0_def sa_def sb_def sc_def)
  from probe_new_window_got [of env work_dir base_handles s0] obtain got where
    got: "fst ?A = Inr got"
    and gt: "got \<longrightarrow> (\<exists>p. downloaded sa = downloaded s0 @ [p])"
    unfolding sa by blast
  have A: "?A = (Inr got, sa)" using got sa by (cases ?A) simp
  have 1: "\<exists>got. fst ?A = Inr got" using got by blast
  have 2: "fst ?A = Inr True \<longrightarrow>
        resolve_by_click env work_dir base_handles el onclick st = (Inr (), sa) \<and>
        (\<exists>p. downloaded sa = downloaded s0 @ [p])"
    using c A gt by (auto simp: resolve_by_click_def py_bind_def py_return_def)
  have 3: "fst ?A = Inr False \<longrightarrow>
        (fst ?B = Inr True \<longrightarrow>
           resolve_by_click env work_dir base_handles el onclick st = (Inr (), sb)) \<and>
        (fst ?B = Inr False \<longrightarrow>
           resolve_by_click env work_dir base_handles el onclick st
             = (Inr (), snd (sleep env 300 sc)))"
  proof (intro impI conjI)
    assume a: "fst ?A = Inr False" and b: "fst ?B = Inr True"
    from b sb have B: "?B = (Inr True, sb)" by (cases ?B) simp
    from a A have "got = False" by simp
    with c A B show "resolve_by_click env work_dir base_handles el onclick st = (Inr (), sb)"
      by (simp add: resolve_by_click_def py_bind_def py_return_def)
  next
    assume a: "fst ?A = Inr False" and b: "fst ?B = Inr False"
    from b sb have B: "?B = (Inr False, sb)" by (cases ?B) simp
    from a A have g: "got = False" by simp
    obtain rc where C: "?C = (Inr rc, sc)"
      using probe_dom_container_total [of env work_dir "re_validate_code env onclick" sb]
      by (auto simp: sc)
    from g c A B C show "resolve_by_click env work_dir base_handles el onclick st
             = (Inr (), snd (sleep env 300 sc))"
      by (simp add: resolve_by_click_def py_bind_def py_return_def sleep_def)
  qed
  from probe_new_window_bounded [of env work_dir base_handles s0]
  have 4: "cost w_window_poll (new_events s0 sa) \<le> 27 \<and> cost w_sleep (new_events s0 sa) \<le> 8400"
    unfolding sa by (auto simp: new_events_def)
  have 5: "cost w_perf_poll (new_events s0 sa) = 0 \<and> cost w_lookup (new_events s0 sa) = 0"
    unfolding sa
    using new_events_free [OF probe_new_window_adds, where w = w_perf_poll]
      new_events_free [OF probe_new_window_adds, where w = w_lookup] probes_weightless(1)
    by simp
  have 6: "cost w_perf_poll (new_events sa sb) \<le> 6 \<and> cost w_sleep (new_events sa sb) \<le> 4800"
    unfolding sb
    using new_events_cost [OF probe_perf_logs_polls] new_events_cost [OF probe_perf_logs_sleeps]
    by simp
  have 7: "cost w_window_poll (new_events sa sb) = 0 \<and> cost w_lookup (new_events sa sb) = 0"
    unfolding sb
    using new_events_free [OF probe_perf_logs_adds, where w = w_window_poll]
      new_events_free [OF probe_perf_logs_adds, where w = w_lookup] probes_weightless(2)
    by simp
  have 8: "cost w_lookup (new_events sb sc) \<le> 1 \<and> cost w_sleep (new_events sb sc) = 0"
    unfolding sc
    using new_events_cost [OF probe_dom_container_costs(1)]
      new_events_cost [OF probe_dom_container_costs(2)]
    by simp
  have 9: "cost w_window_poll (new_events sb sc) = 0 \<and> cost w_perf_poll (new_events sb sc) = 0"
    unfolding sc
    using new_events_free [OF probe_dom_container_adds, where w = w_window_poll]
      new_events_free [OF probe_dom_container_adds, where w = w_perf_poll] probes_weightless(3)
    by simp
  from 1 2 3 4 5 6 7 8 9 show ?thesis by blast
qed

theorem probes_run_in_fixed_order_witness:
  "resolve_by_click env_popup ''/w/7'' [''main''] 1 [] st0 =
     (Inr (),
      \<lparr>hist = [EvExecuteScript ''scrollIntoView'' 1, EvExecuteScript ''click'' 1,
               EvWindowHandles, EvSwitchWindow ''popup'', EvSleep 600, EvCurrentUrl,
               EvMkdir ''/w/7'', EvLogInfo (LogTryDownload ''http://files/a.pdf'' ''a.pdf''),
               EvHttpGet ''http://files/a.pdf'', EvWriteBody ''/w/7/a.pdf'',
               EvLogInfo (LogDownloadDone ''/w/7/a.pdf''), EvCloseWindow,
               EvSwitchWindow ''main''],
       msgs = [MsgA_NewWindow ''http://files/a.pdf''], clock = 600,
       downloaded = [''/w/7/a.pdf''], uploaded = [], cand = [], failed = []\<rparr>)"
proof -
  let ?S = "\<lparr>hist = [EvExecuteScript ''scrollIntoView'' 1, EvExecuteScript ''click'' 1,
               EvWindowHandles, EvSwitchWindow ''popup'', EvSleep 600, EvCurrentUrl,
               EvMkdir ''/w/7'', EvLogInfo (LogTryDownload ''http://files/a.pdf'' ''a.pdf''),
               EvHttpGet ''http://files/a.pdf'', EvWriteBody ''/w/7/a.pdf'',
               EvLogInfo (LogDownloadDone ''/w/7/a.pdf''), EvCloseWindow,
               EvSwitchWindow ''main''],
       msgs = [MsgA_NewWindow ''http://files/a.pdf''], clock = 600,
       downloaded = [''/w/7/a.pdf''], uploaded = [], cand = [], failed = []\<rparr>"
  have click: "snd (click_candidate env_popup 1 st0) =
      st0\<lparr>hist := [EvExecuteScript ''scrollIntoView'' 1, EvExecuteScript ''click'' 1]\<rparr>"
    by (simp add: click_candidate_def prog_defs env_popup_def env0_def st0_def)
  have A: "probe_new_window env_popup ''/w/7'' [''main'']
             (st0\<lparr>hist := [EvExecuteScript ''scrollIntoView'' 1, EvExecuteScript ''click'' 1]\<rparr>)
           = (Inr True, ?S)"
    by (simp add: probe_new_window_def new_window_found_def download_and_keep_def
        download_with_session_def download_try_def py_ignore_def append_downloaded_def prog_defs
        env_popup_def env0_def st0_def CLICK_NEW_WINDOW_WAIT_def pjoin_def pname_def startswith_def
        looks_like_attachment_suffix ATTACH_EXTS_def endswith_def lower_def lower_char_def)
  from probes_run_in_fixed_order [of env_popup "''/w/7''" "[''main'']" 1 st0 "[]"] click A
  show ?thesis by simp
qed

section \<open>Nothing is removed after the start of a task\<close>

































lemma prepare_work_dir_raises:
  "prepare_work_dir env tid st = (Inl e, st') \<Longrightarrow>
   py_bind (prepare_work_dir env tid) f st = (Inl e, st')"
  by (simp add: py_bind_def)




section \<open>The result of a task\<close>

text \<open>
  C5. When the working directory is prepared, the browser starts, the page opens, and
  the two strategies together return no downloaded file, the task returns a result whose
  status is \<^verbatim>\<open>no_content\<close>; the result has no key \<^verbatim>\<open>uploaded\<close>, so the list of uploaded
  names read from it (\<^verbatim>\<open>res.get('uploaded', [])\<close>) is empty.
\<close>

theorem no_downloads_give_no_content:
  assumes prep: "prepare_work_dir env task_id (snd (say (MsgTaskReceived task_id) st)) = (Inr (), s1)"
    and build: "build_driver env (work_dir_of task_id)
                  (snd (say (MsgWorkDir (work_dir_of task_id)) s1)) = (Inr (), s2)"
    and page: "open_page env url s2 = (Inr page_title_15, s3)"
    and none: "collect_downloads env task_id page_title_15 (work_dir_of task_id) s3 = (Inr [], s4)"
  shows "\<exists>res st'. handle_single_task env task_id url st = (Inr res, st') \<and>
           status_of res = Some (VStr ''no_content'') \<and>
           map_of res ''uploaded'' = None \<and>
           uploaded_of res = []"
proof -
  let ?s5 = "s4\<lparr>msgs := msgs s4 @ [MsgNoAttachment task_id]\<rparr>"
  let ?res = "[(''status'', VStr ''no_content''),
               (''message'', VMsg (MsgNoAttachment task_id)),
               (''messages'', VMsgs (msgs ?s5))]"
  have t: "task_try env task_id url s2 = (Inr ?res, ?s5)"
    using page none
    by (simp add: task_try_def py_bind_def say_def py_get_def py_return_def)
  obtain s6 where q: "py_ignore (call env (ans_unit env) EvQuit) ?s5 = (Inr (), s6)"
    using ignore_total by blast
  have w: "task_with_driver env task_id url s2 = (Inr ?res, s6)"
    using t q by (simp add: task_with_driver_def py_bind_def py_try_def py_return_def)
  have "handle_single_task env task_id url st = (Inr ?res, s6)"
    using prep build w
    by (simp add: handle_single_task_def py_bind_def say_def)
  moreover have "status_of ?res = Some (VStr ''no_content'')" by (simp add: status_of_def)
  moreover have "map_of ?res ''uploaded'' = None" by simp
  moreover have "uploaded_of ?res = []" by (simp add: uploaded_of_def)
  ultimately show ?thesis by blast
qed

theorem no_downloads_give_no_content_witness:
  "\<exists>res st'. handle_single_task env0 ''7'' ''http://site/detail/7'' st0 = (Inr res, st') \<and>
      status_of res = Some (VStr ''no_content'') \<and> uploaded_of res = []"
proof -
  obtain s1 where prep: "prepare_work_dir env0 ''7'' (snd (say (MsgTaskReceived ''7'') st0)) = (Inr (), s1)"
    by (simp add: prepare_work_dir_def prog_defs env0_def st0_def)
  obtain s2 where build: "build_driver env0 (work_dir_of ''7'')
                  (snd (say (MsgWorkDir (work_dir_of ''7'')) s1)) = (Inr (), s2)"
    by (simp add: build_driver_def prog_defs env0_def)
  obtain t s3 where page: "open_page env0 ''http://site/detail/7'' s2 = (Inr t, s3)"
    by (simp add: open_page_def read_page_title_def driver_title_def prog_defs env0_def)
  obtain s4 where none: "collect_downloads env0 ''7'' t (work_dir_of ''7'') s3 = (Inr [], s4)"
    by (simp add: collect_downloads_def session_from_driver_def strategy_iframe_popups_def
        iframe_popups_try_def strategy_direct_links_def direct_links_try_def scan_page_source_def
        py_ignore_def py_get_def new_downloaded_def new_cand_def or_empty_def prog_defs env0_def)
  from no_downloads_give_no_content [OF prep build page none]
  show ?thesis by blast
qed

section \<open>Which failures end a task in error\<close>

named_theorems nr_intros

lemma never_raisesI: "(\<And>st. \<exists>x st'. m st = (Inr x, st')) \<Longrightarrow> never_raises m"
  by (simp add: never_raises_def)

lemma never_raisesD: "never_raises m \<Longrightarrow> \<exists>x st'. m st = (Inr x, st')"
  by (simp add: never_raises_def)

lemma nr_basic [nr_intros]:
  "never_raises (py_return x)" "never_raises (say m)" "never_raises (py_get f)"
  "never_raises (sleep env n)" "never_raises (emit env ev)"
  "never_raises (append_downloaded p)" "never_raises (append_uploaded p)"
  "never_raises (append_cand p)" "never_raises new_downloaded" "never_raises new_uploaded"
  "never_raises new_cand"
  by (simp_all add: never_raises_def py_return_def say_def py_get_def sleep_def emit_def call_def
      append_downloaded_def append_uploaded_def append_cand_def new_downloaded_def
      new_uploaded_def new_cand_def)

lemma nr_try [nr_intros]: "(\<And>e. never_raises (h e)) \<Longrightarrow> never_raises (py_try m h)"
  unfolding never_raises_def using try_total by blast

lemma nr_ignore [nr_intros]: "never_raises (py_ignore m)"
  unfolding never_raises_def using ignore_total by blast

lemma nr_bind [nr_intros]:
  assumes "never_raises m" and "\<And>x. never_raises (f x)"
  shows "never_raises (py_bind m f)"
proof (rule never_raisesI)
  fix st
  from never_raisesD [OF assms(1)] obtain x st1 where m: "m st = (Inr x, st1)" by blast
  from never_raisesD [OF assms(2)] obtain y st2 where "f x st1 = (Inr y, st2)" by blast
  with m show "\<exists>x st'. py_bind m f st = (Inr x, st')" by (simp add: py_bind_def)
qed

lemma nr_if [nr_intros]:
  "never_raises a \<Longrightarrow> never_raises b \<Longrightarrow> never_raises (if c then a else b)"
  by simp

lemma nr_strategy_a [nr_intros]: "never_raises (strategy_iframe_popups env tid title d)"
  unfolding strategy_iframe_popups_def by (intro nr_intros)

lemma nr_strategy_b [nr_intros]: "never_raises (strategy_direct_links env tid title d)"
  unfolding strategy_direct_links_def by (intro nr_intros)

lemma nr_collect_downloads: "never_raises (collect_downloads env tid title d)"
  unfolding collect_downloads_def session_from_driver_def by (intro nr_intros)

lemma nr_extract: "never_raises (extract_and_upload_file env path tid title)"
  unfolding extract_and_upload_file_def by (intro nr_intros)


named_theorems fo_intros

lemma fatal_onlyI:
  "(\<And>st e st'. m st = (Inl e, st') \<Longrightarrow> failed st' \<noteq> [] \<and> is_fatal (last (failed st')))
   \<Longrightarrow> fatal_only m"
  by (auto simp: fatal_only_def split: sum.splits prod.splits)

lemma fatal_onlyD:
  "fatal_only m \<Longrightarrow> m st = (Inl e, st') \<Longrightarrow> failed st' \<noteq> [] \<and> is_fatal (last (failed st'))"
  by (auto simp: fatal_only_def split: sum.splits prod.splits dest: spec [of _ st])

lemma fo_nr: "never_raises m \<Longrightarrow> fatal_only m"
proof (rule fatal_onlyI)
  fix st e st'
  assume "never_raises m" and r: "m st = (Inl e, st')"
  from never_raisesD [OF this(1), of st] r
  show "failed st' \<noteq> [] \<and> is_fatal (last (failed st'))" by simp
qed

lemma fo_call [fo_intros]: "is_fatal ev \<Longrightarrow> fatal_only (call env oracle ev)"
  by (rule fatal_onlyI) (auto simp: call_def)

lemma fo_bind [fo_intros]:
  assumes "fatal_only m" and "\<And>x. fatal_only (f x)"
  shows "fatal_only (py_bind m f)"
proof (rule fatal_onlyI)
  fix st e st'
  assume r: "py_bind m f st = (Inl e, st')"
  obtain r1 st1 where m: "m st = (r1, st1)" by (cases "m st")
  show "failed st' \<noteq> [] \<and> is_fatal (last (failed st'))"
  proof (cases r1)
    case (Inl e1)
    with m r have "m st = (Inl e, st')" by (simp add: py_bind_def)
    from fatal_onlyD [OF assms(1) this] show ?thesis .
  next
    case (Inr x)
    with m r have "f x st1 = (Inl e, st')" by (simp add: py_bind_def)
    from fatal_onlyD [OF assms(2) this] show ?thesis .
  qed
qed

lemma fo_try [fo_intros]:
  assumes "\<And>e. fatal_only (h e)"
  shows "fatal_only (py_try m h)"
proof (rule fatal_onlyI)
  fix st e st'
  assume r: "py_try m h st = (Inl e, st')"
  obtain r1 st1 where m: "m st = (r1, st1)" by (cases "m st")
  show "failed st' \<noteq> [] \<and> is_fatal (last (failed st'))"
  proof (cases r1)
    case (Inl e1)
    with m r have "h e1 st1 = (Inl e, st')" by (simp add: py_try_def)
    from fatal_onlyD [OF assms this] show ?thesis .
  next
    case (Inr x)
    with m r show ?thesis by (simp add: py_try_def)
  qed
qed

lemma fo_if [fo_intros]:
  "fatal_only a \<Longrightarrow> fatal_only b \<Longrightarrow> fatal_only (if c then a else b)"
  by simp

lemma fo_basic [fo_intros]:
  "fatal_only (py_return x)" "fatal_only (say m)" "fatal_only (py_get f)"
  "fatal_only (sleep env n)" "fatal_only new_uploaded"
  by (rule fo_nr, intro nr_intros)+

lemma fo_read_page_title: "fatal_only (read_page_title env)"
  unfolding read_page_title_def driver_title_def
  by (intro fo_intros) (simp add: is_fatal_def)

lemma fo_open_page: "fatal_only (open_page env url)"
  unfolding open_page_def
  by (intro fo_intros fo_read_page_title) (simp add: is_fatal_def)

lemma fo_upload_downloaded: "fatal_only (upload_downloaded env tid title fs)"
proof (induction fs)
  case Nil
  show ?case by (simp add: fo_basic)
next
  case (Cons f fs)
  show ?case unfolding upload_downloaded.simps
    by (intro fo_intros Cons.IH fo_nr [OF nr_extract]) (simp add: is_fatal_def)
qed

lemma fo_task_try: "fatal_only (task_try env tid url)"
  unfolding task_try_def
  by (intro fo_intros fo_open_page fo_upload_downloaded fo_nr [OF nr_collect_downloads])

lemma task_try_status:
  assumes "task_try env tid url st = (Inr res, st')"
  shows "status_of res = Some (VStr ''no_content'') \<or> status_of res = Some (VStr ''success'')"
  using assms unfolding task_try_def py_bind_def say_def py_get_def py_return_def new_uploaded_def
  by (auto simp: status_of_def split: sum.splits prod.splits if_splits)

lemma quit_failed:
  assumes "py_ignore (call env (ans_unit env) EvQuit) s = (r, s')"
  shows "r = Inr () \<and> (\<exists>qs. failed s' = failed s @ qs \<and> set qs \<subseteq> {EvQuit})"
  using assms unfolding py_ignore_def py_try_def py_bind_def call_def py_return_def
  by (auto split: sum.splits)

lemma task_crashed_result:
  assumes "task_crashed env tid b e s = (r, s')"
  shows "(\<exists>res. r = Inr res \<and> status_of res = Some (VStr ''error'')) \<and>
         (\<exists>qs. failed s' = failed s @ qs \<and> set qs \<subseteq> {EvQuit})"
proof -
  let ?s1 = "snd (say (MsgTaskFailed (str_of_exn e))
                (snd (emit env (EvLogError (LogTaskCrashed tid (str_of_exn e))) s)))"
  have f1: "failed ?s1 = failed s" by (simp add: say_def emit_def call_def)
  show ?thesis
  proof (cases b)
    case False
    with assms f1 show ?thesis
      by (auto simp: task_crashed_def py_bind_def say_def emit_def call_def py_get_def
          py_return_def status_of_def)
  next
    case True
    obtain rq sq where q: "py_ignore (call env (ans_unit env) EvQuit) ?s1 = (rq, sq)"
      by (cases "py_ignore (call env (ans_unit env) EvQuit) ?s1")
    from quit_failed [OF q] f1 obtain qs where rq: "rq = Inr ()"
      and qs: "failed sq = failed s @ qs" "set qs \<subseteq> {EvQuit}"
      by auto
    from assms True q rq have "r = Inr [(''status'', VStr ''error''),
                (''message'', VStr (str_of_exn e)), (''messages'', VMsgs (msgs sq))] \<and> s' = sq"
      by (auto simp: task_crashed_def py_bind_def say_def emit_def call_def py_get_def
          py_return_def)
    with qs show ?thesis by (auto simp: status_of_def)
  qed
qed

lemma cause_after_quits:
  assumes "fs \<noteq> []" and "is_fatal (last fs)" and "set qs \<subseteq> {EvQuit}"
  shows "cause_is_fatal (fs @ qs)"
proof -
  from assms(1) obtain ys y where fs: "fs = ys @ [y]"
    by (metis append_butlast_last_id)
  with assms(2) have y: "is_fatal y" by simp
  then have yq: "y \<noteq> EvQuit" by (auto simp: is_fatal_def)
  from assms(3) have "filter (\<lambda>e. e \<noteq> EvQuit) qs = []"
    by (auto simp: filter_empty_conv)
  with yq have "filter (\<lambda>e. e \<noteq> EvQuit) (fs @ qs) = filter (\<lambda>e. e \<noteq> EvQuit) ys @ [y]"
    by (simp add: fs)
  with y show ?thesis by (simp add: cause_is_fatal_def)
qed

text \<open>
  C9 (as amended). Once the working directory is prepared, the task returns a result,
  whose status is \<^verbatim>\<open>success\<close>, \<^verbatim>\<open>no_content\<close> or \<^verbatim>\<open>error\<close>. When the status is
  \<^verbatim>\<open>error\<close>, the call that raised last (the attempts to quit the browser aside) is the
  start of the browser, the loading of the page, a read of the document title or the
  existence test of a file: no failure inside the strategies, the downloads, the
  extraction or the uploads ends a task in error.
\<close>

theorem task_result_is_structured:
  assumes prep: "prepare_work_dir env task_id (snd (say (MsgTaskReceived task_id) st)) = (Inr (), s1)"
  shows "\<exists>res st'. handle_single_task env task_id url st = (Inr res, st') \<and>
           (status_of res = Some (VStr ''success'') \<or> status_of res = Some (VStr ''no_content'')
            \<or> status_of res = Some (VStr ''error'')) \<and>
           (status_of res = Some (VStr ''error'') \<longrightarrow> cause_is_fatal (failed st'))"
proof -
  let ?s2 = "snd (say (MsgWorkDir (work_dir_of task_id)) s1)"
  obtain rb sb where b: "build_driver env (work_dir_of task_id) ?s2 = (rb, sb)"
    by (cases "build_driver env (work_dir_of task_id) ?s2")
  have h: "handle_single_task env task_id url st =
             (case rb of Inl e \<Rightarrow> task_crashed env task_id False e sb
              | Inr u \<Rightarrow> task_with_driver env task_id url sb)"
    using prep b by (simp add: handle_single_task_def py_bind_def say_def split: sum.splits)
  show ?thesis
  proof (cases rb)
    case (Inl e)
    from b Inl have fb: "failed sb \<noteq> [] \<and> is_fatal (last (failed sb))"
      by (auto simp: build_driver_def call_def is_fatal_def)
    obtain r s' where c: "task_crashed env task_id False e sb = (r, s')"
      by (cases "task_crashed env task_id False e sb")
    from task_crashed_result [OF c] obtain res qs where
      r: "r = Inr res" "status_of res = Some (VStr ''error'')"
      and q: "failed s' = failed sb @ qs" "set qs \<subseteq> {EvQuit}"
      by blast
    from fb q have "cause_is_fatal (failed s')" by (simp add: cause_after_quits)
    with h Inl c r show ?thesis by simp
  next
    case (Inr u)
    obtain rt st1 where t: "task_try env task_id url sb = (rt, st1)"
      by (cases "task_try env task_id url sb")
    show ?thesis
    proof (cases rt)
      case ok: (Inr res)
      from task_try_status [OF t [unfolded ok]]
      have s: "status_of res = Some (VStr ''no_content'') \<or> status_of res = Some (VStr ''success'')" .
      obtain rq sq where q: "py_ignore (call env (ans_unit env) EvQuit) st1 = (rq, sq)"
        by (cases "py_ignore (call env (ans_unit env) EvQuit) st1")
      from quit_failed [OF q] have rq: "rq = Inr ()" by simp
      from t ok q rq have "task_with_driver env task_id url sb = (Inr res, sq)"
        by (simp add: task_with_driver_def py_bind_def py_try_def py_return_def)
      with h Inr s show ?thesis by auto
    next
      case bad: (Inl e)
      from fatal_onlyD [OF fo_task_try t [unfolded bad]]
      have f1: "failed st1 \<noteq> []" "is_fatal (last (failed st1))" by simp_all
      obtain r s2 where c: "task_crashed env task_id True e st1 = (r, s2)"
        by (cases "task_crashed env task_id True e st1")
      from task_crashed_result [OF c] obtain res qs where
        r: "r = Inr res" "status_of res = Some (VStr ''error'')"
        and q2: "failed s2 = failed st1 @ qs" "set qs \<subseteq> {EvQuit}"
        by blast
      obtain rq sq where q: "py_ignore (call env (ans_unit env) EvQuit) s2 = (rq, sq)"
        by (cases "py_ignore (call env (ans_unit env) EvQuit) s2")
      from quit_failed [OF q] obtain qs' where rq: "rq = Inr ()"
        and q3: "failed sq = failed s2 @ qs'" "set qs' \<subseteq> {EvQuit}"
        by blast
      from q2 q3 have "failed sq = failed st1 @ (qs @ qs')" "set (qs @ qs') \<subseteq> {EvQuit}"
        by auto
      with f1 have cf: "cause_is_fatal (failed sq)" by (simp add: cause_after_quits)
      from t bad c r q rq have "task_with_driver env task_id url sb = (Inr res, sq)"
        by (simp add: task_with_driver_def py_bind_def py_try_def py_return_def)
      with h Inr r cf show ?thesis by auto
    qed
  qed
qed

lemmas task_defs = handle_single_task_def prepare_work_dir_def build_driver_def
  task_with_driver_def task_try_def open_page_def read_page_title_def driver_title_def
  task_crashed_def py_ignore_def py_get_def or_empty_def sel_h3_def work_dir_of_def
  DOWNLOAD_WORK_DIR_def

theorem task_result_is_structured_witness:
  "\<exists>res st'. handle_single_task env_get_fails ''7'' ''http://site/detail/7'' st0 = (Inr res, st') \<and>
      status_of res = Some (VStr ''error'') \<and> cause_is_fatal (failed st') \<and>
      failed st' = [EvGet ''http://site/detail/7'']"
proof -
  obtain s1 where prep:
    "prepare_work_dir env_get_fails ''7'' (snd (say (MsgTaskReceived ''7'') st0)) = (Inr (), s1)"
    by (simp add: prepare_work_dir_def prog_defs env_get_fails_def env0_def st0_def)
  have run: "status_of (projr (fst (handle_single_task env_get_fails ''7'' ''http://site/detail/7'' st0)))
               = Some (VStr ''error'') \<and>
             failed (snd (handle_single_task env_get_fails ''7'' ''http://site/detail/7'' st0))
               = [EvGet ''http://site/detail/7'']"
    by (simp add: task_defs prog_defs env_get_fails_def env0_def st0_def status_of_def
        pjoin_def startswith_def)
  from task_result_is_structured [OF prep, of "''http://site/detail/7''"] run
  show ?thesis by auto
qed

text \<open>
  C9 (as stated) fails: the browser starts and the page loads, then finding the headings
  raises and so does reading the title in the handler of that step; the task returns a
  result with status \<^verbatim>\<open>error\<close> although neither the start of the browser nor the
  navigation failed.
\<close>

theorem error_without_navigation_failure_counterexample:
  "status_of (projr (fst (handle_single_task env_title_fails ''7'' ''http://site/detail/7'' st0)))
     = Some (VStr ''error'') \<and>
   failed (snd (handle_single_task env_title_fails ''7'' ''http://site/detail/7'' st0))
     = [EvFindElements sel_h3, EvTitle] \<and>
   \<not> isl (fst (handle_single_task env_title_fails ''7'' ''http://site/detail/7'' st0))"
  by (simp add: task_defs prog_defs env_title_fails_def env0_def st0_def status_of_def
      pjoin_def startswith_def)

text \<open>
  The preparation of the working directory is not inside the \<^verbatim>\<open>try\<close> statement: when
  the directory cannot be created, the exception leaves the function.
\<close>

lemma work_dir_failure_escapes:
  "fst (handle_single_task env_mkdir_fails ''7'' ''http://site/detail/7'' st0)
     = Inl (Exception ''File exists'')"
  by (simp add: task_defs prog_defs env_mkdir_fails_def env0_def st0_def pjoin_def startswith_def)

end
